theory Spec2Isabelle
  imports Complex_Main
begin

section \<open>Common conventions\<close>

text \<open>
  The TypeScript sources of the PlainView API service are embedded as follows.
  \<^item> A JavaScript \<^verbatim>\<open>number\<close> that carries a measurement is a \<^typ>\<open>real\<close>
    (finite values only; rounding of IEEE doubles, \<^verbatim>\<open>NaN\<close> and infinities are outside
    the model). Millisecond clock readings (\<^verbatim>\<open>Date.now()\<close>) and ISO timestamps
    (\<^verbatim>\<open>new Date().toISOString()\<close>, read back with \<^verbatim>\<open>new Date(s).getTime()\<close>)
    are \<^typ>\<open>int\<close> milliseconds since the epoch.
  \<^item> \<^verbatim>\<open>Date.now()\<close>, \<^verbatim>\<open>Math.random()\<close> and \<^verbatim>\<open>uuid()\<close> are inputs of
    the operations that call them. One handler run reads one clock value.
  \<^item> A module-level variable is a field of the module's state record; an operation takes
    the state and returns the new one together with the events it emitted, in order.
  \<^item> An optional property (\<^verbatim>\<open>x?: T\<close>, possibly \<^verbatim>\<open>undefined\<close>) is an
    \<^typ>\<open>'a option\<close>.
  \<^item> Publishing an event is recorded as an output of the operation. The listeners on the
    bus are taken to return normally; the section on the bus says what a listener that
    throws does to a dispatch.
\<close>

subsection \<open>Truthiness and array helpers\<close>

text \<open>JavaScript truthiness of an optional string and of an optional number.\<close>

definition truthy_str :: "string option \<Rightarrow> bool" where
  "truthy_str s = (case s of None \<Rightarrow> False | Some v \<Rightarrow> v \<noteq> [])"

definition truthy_num :: "real option \<Rightarrow> bool" where
  "truthy_num x = (case x of None \<Rightarrow> False | Some v \<Rightarrow> v \<noteq> 0)"

text \<open>\<^verbatim>\<open>a || b\<close> on an optional string with a string default.\<close>

definition or_str :: "string option \<Rightarrow> string \<Rightarrow> string" where
  "or_str s d = (if truthy_str s then the s else d)"

text \<open>\<^verbatim>\<open>a ?? b\<close>: the default is taken only for an absent value.\<close>

definition nullish :: "'a option \<Rightarrow> 'a \<Rightarrow> 'a" where
  "nullish x d = (case x of None \<Rightarrow> d | Some v \<Rightarrow> v)"

text \<open>
  \<^verbatim>\<open>xs.slice(-n)\<close> for a positive \<open>n\<close>: the last \<open>n\<close> elements, all of them when there
  are fewer.
\<close>

definition slice_last :: "nat \<Rightarrow> 'a list \<Rightarrow> 'a list" where
  "slice_last n xs = drop (length xs - n) xs"

text \<open>\<^verbatim>\<open>xs.push(x); if (xs.length > cap) xs.shift();\<close>\<close>

definition push_bounded :: "nat \<Rightarrow> 'a \<Rightarrow> 'a list \<Rightarrow> 'a list" where
  "push_bounded cap x xs =
     (let ys = xs @ [x] in if length ys > cap then tl ys else ys)"

subsection \<open>JavaScript \<open>Map\<close>\<close>

text \<open>
  A \<^verbatim>\<open>Map\<close> is the list of its entries in insertion order, which is the order
  \<^verbatim>\<open>values()\<close> and \<^verbatim>\<open>forEach\<close> visit them in. \<open>set\<close> on a key that is present
  replaces the value where it stands; on a new key it appends. Mutating the object that
  \<open>get(k)\<close> returned is \<open>map_set k\<close> with the changed object.
\<close>

definition map_get :: "'k \<Rightarrow> ('k \<times> 'v) list \<Rightarrow> 'v option" where
  "map_get k m = map_of m k"

definition map_has :: "'k \<Rightarrow> ('k \<times> 'v) list \<Rightarrow> bool" where
  "map_has k m = (map_of m k \<noteq> None)"

fun map_set :: "'k \<Rightarrow> 'v \<Rightarrow> ('k \<times> 'v) list \<Rightarrow> ('k \<times> 'v) list" where
  "map_set k v [] = [(k, v)]"
| "map_set k v ((k', v') # m) = (if k = k' then (k, v) # m else (k', v') # map_set k v m)"

definition map_values :: "('k \<times> 'v) list \<Rightarrow> 'v list" where
  "map_values m = map snd m"

text \<open>\<^verbatim>\<open>s.includes(sub)\<close> on strings.\<close>

fun str_includes :: "string \<Rightarrow> string \<Rightarrow> bool" where
  "str_includes [] sub = (sub = [])"
| "str_includes (c # cs) sub = (take (length sub) (c # cs) = sub \<or> str_includes cs sub)"

text \<open>\<^verbatim>\<open>s.toUpperCase()\<close>, on the ASCII letters.\<close>

definition toUpperCase :: "string \<Rightarrow> string" where
  "toUpperCase s =
     map (\<lambda>c. let n = (of_char c :: nat) in
               if 97 \<le> n \<and> n \<le> 122 then char_of (n - 32) else c) s"

section \<open>FlowIQ: telemetry ingestion and anomaly detection (modules/flowiq.ts)\<close>

record FlowMetrics =
  flowRateLpm :: real
  pressurePa :: real
  temperatureC :: real
  timestamp :: int

datatype AnomalyType = flow_rate_deviation | pressure_deviation | temperature_spike

datatype Severity = low | medium | high

record FlowAnomaly =
  anomaly_id :: string
  anomaly_type :: AnomalyType
  severity :: Severity
  detectedAt :: int
  metrics :: "(string \<times> real) list"
  expectedRange :: "real \<times> real"
  actualValue :: real

text \<open>The events the flow module puts on the bus.\<close>

datatype FlowEvent =
    AnomalyDetected string AnomalyType real int
  | FlowMetricsUpdated FlowMetrics

record FlowState =
  metricsHistory :: "FlowMetrics list"
  anomalyHistory :: "FlowAnomaly list"
  ros2Active :: bool

text \<open>
  The module's initial state. \<open>baselineMetrics\<close> carries the module's load time as its
  timestamp; no operation reads that field, so it is fixed to 0 here.
\<close>

definition baselineMetrics :: FlowMetrics where
  "baselineMetrics =
     \<lparr>flowRateLpm = 150, pressurePa = 2500000, temperatureC = 45, timestamp = 0\<rparr>"

definition flow_init :: FlowState where
  "flow_init = \<lparr>metricsHistory = [], anomalyHistory = [], ros2Active = False\<rparr>"

text \<open>
  The environment of one run: the clock and the three identifiers \<^verbatim>\<open>uuid()\<close> would
  return for the flow, pressure and temperature anomaly.
\<close>

record FlowEnv =
  env_now :: int
  env_uuid :: "nat \<Rightarrow> string"

text \<open>\<^verbatim>\<open>recent.reduce((sum, m) => sum + f(m), 0) / recent.length\<close>\<close>

definition average :: "(FlowMetrics \<Rightarrow> real) \<Rightarrow> FlowMetrics list \<Rightarrow> real" where
  "average f recent = foldl (\<lambda>sum m. sum + f m) 0 recent / real (length recent)"

definition detectAnomalies :: "FlowEnv \<Rightarrow> FlowMetrics list \<Rightarrow> FlowMetrics \<Rightarrow> FlowAnomaly list" where
  "detectAnomalies env history current =
     (let recent = slice_last 10 history in
      if length recent \<ge> 3 then
        (let avgFlow = average flowRateLpm recent;
             flowDeviation = \<bar>flowRateLpm current - avgFlow\<bar>;
             flowAnoms =
               (if flowDeviation > avgFlow * 0.25 then
                  [\<lparr>anomaly_id = env_uuid env 0,
                    anomaly_type = flow_rate_deviation,
                    severity = (if flowDeviation > avgFlow * 0.5 then high else medium),
                    detectedAt = env_now env,
                    metrics = [(''flowRateLpm'', flowRateLpm current)],
                    expectedRange = (avgFlow * 0.75, avgFlow * 1.25),
                    actualValue = flowRateLpm current\<rparr>]
                else []);
             avgPressure = average pressurePa recent;
             pressureDeviation = \<bar>pressurePa current - avgPressure\<bar>;
             pressureAnoms =
               (if pressureDeviation > 100000 then
                  [\<lparr>anomaly_id = env_uuid env 1,
                    anomaly_type = pressure_deviation,
                    severity = (if pressureDeviation > 200000 then high else low),
                    detectedAt = env_now env,
                    metrics = [(''pressurePa'', pressurePa current)],
                    expectedRange = (avgPressure - 100000, avgPressure + 100000),
                    actualValue = pressurePa current\<rparr>]
                else []);
             avgTemp = average temperatureC recent;
             tempDeviation = \<bar>temperatureC current - avgTemp\<bar>;
             tempAnoms =
               (if tempDeviation > 10 then
                  [\<lparr>anomaly_id = env_uuid env 2,
                    anomaly_type = temperature_spike,
                    severity = (if tempDeviation > 20 then high else medium),
                    detectedAt = env_now env,
                    metrics = [(''temperatureC'', temperatureC current)],
                    expectedRange = (avgTemp - 5, avgTemp + 5),
                    actualValue = temperatureC current\<rparr>]
                else [])
         in flowAnoms @ pressureAnoms @ tempAnoms)
      else [])"

text \<open>The event published for one anomaly (\<^verbatim>\<open>anomalies.forEach\<close>).\<close>

definition anomaly_event :: "FlowEnv \<Rightarrow> FlowAnomaly \<Rightarrow> FlowEvent" where
  "anomaly_event env anom =
     AnomalyDetected ''flow-system'' (anomaly_type anom)
       (if severity anom = high then 0.95 else 0.7) (env_now env)"

text \<open>
  What both producers do with a finished sample: push it on the history (shifting the
  oldest out beyond 100), run the detector on the history that now ends with the sample,
  append each anomaly to the anomaly history and publish it, then publish the sample.
  \<^verbatim>\<open>await db.insertMetric(current)\<close> writes to the database client only and is left out;
  a run is taken as one atomic step.
\<close>

definition record_sample ::
  "FlowEnv \<Rightarrow> FlowMetrics \<Rightarrow> FlowState \<Rightarrow> FlowState \<times> FlowEvent list" where
  "record_sample env current st =
     (let hist = push_bounded 100 current (metricsHistory st);
          anomalies = detectAnomalies env hist current
      in (st\<lparr>metricsHistory := hist,
              anomalyHistory := anomalyHistory st @ anomalies\<rparr>,
          map (anomaly_event env) anomalies @ [FlowMetricsUpdated current]))"

text \<open>
  The argument of \<open>ingestFlowTelemetry\<close>: every field may be missing. A timestamp is a
  number of milliseconds (a date string stands for the time it parses to). The function
  sets \<open>ros2Active\<close> first, so the flag is set even when the timestamp makes it throw;
  the result pairs the outcome (the error, or the events published) with the state.
\<close>

record FlowSample =
  s_flowRateLpm :: "real option"
  s_pressurePa :: "real option"
  s_temperatureC :: "real option"
  s_timestamp :: "int option"

datatype flow_error = RangeError

text \<open>
  \<^verbatim>\<open>sample.timestamp ? new Date(sample.timestamp).toISOString() : new Date().toISOString()\<close>:
  a falsy timestamp (absent or 0) gives the clock; a time value beyond
  \<open>\<plusminus>8.64e15\<close> ms is an invalid date, on which \<open>toISOString\<close> throws.
\<close>

definition sample_time :: "int \<Rightarrow> int option \<Rightarrow> flow_error + int" where
  "sample_time now ts =
     (case ts of
        None \<Rightarrow> Inr now
      | Some t \<Rightarrow>
          if t = 0 then Inr now
          else if \<bar>t\<bar> > 8640000000000000 then Inl RangeError
          else Inr t)"

definition ingestFlowTelemetry ::
  "FlowEnv \<Rightarrow> FlowSample \<Rightarrow> FlowState \<Rightarrow> (flow_error + FlowEvent list) \<times> FlowState" where
  "ingestFlowTelemetry env sample st0 =
     (let st = st0\<lparr>ros2Active := True\<rparr>;
          lst = (if metricsHistory st = [] then baselineMetrics else last (metricsHistory st))
      in case sample_time (env_now env) (s_timestamp sample) of
           Inl e \<Rightarrow> (Inl e, st)
         | Inr ts \<Rightarrow>
             (let (st', evs) =
                    record_sample env
                      \<lparr>flowRateLpm = nullish (s_flowRateLpm sample) (flowRateLpm lst),
                       pressurePa = nullish (s_pressurePa sample) (pressurePa lst),
                       temperatureC = nullish (s_temperatureC sample) (temperatureC lst),
                       timestamp = ts\<rparr> st
              in (Inr evs, st')))"

text \<open>
  The mock generator's 5-second callback in \<open>registerFlowIQ\<close>. The three arguments are
  the values of \<^verbatim>\<open>Math.random()\<close>. It does nothing once \<open>ros2Active\<close> is set.
\<close>

definition generator_tick ::
  "FlowEnv \<Rightarrow> real \<Rightarrow> real \<Rightarrow> real \<Rightarrow> FlowState \<Rightarrow> FlowState \<times> FlowEvent list" where
  "generator_tick env r1 r2 r3 st =
     (if ros2Active st then (st, [])
      else
        (let noise_flow = (r1 - 0.5) * 10;
             noise_pressure = (r2 - 0.5) * 50000;
             noise_temp = (r3 - 0.5) * 3
         in record_sample env
              \<lparr>flowRateLpm = max 100 (flowRateLpm baselineMetrics + noise_flow),
               pressurePa = max 2300000 (pressurePa baselineMetrics + noise_pressure),
               temperatureC = max 20 (temperatureC baselineMetrics + noise_temp),
               timestamp = env_now env\<rparr> st))"

text \<open>
  A run of the module: a sequence of calls of \<open>ingestFlowTelemetry\<close> and generator
  callbacks, each with its own environment. The events of all steps are collected in
  publication order; a call that throws publishes nothing.
\<close>

datatype FlowStep =
    Ingest FlowEnv FlowSample
  | Generate FlowEnv real real real

definition flow_step :: "FlowStep \<Rightarrow> FlowState \<Rightarrow> FlowState \<times> FlowEvent list" where
  "flow_step step st =
     (case step of
        Ingest env sample \<Rightarrow>
          (case ingestFlowTelemetry env sample st of
             (Inl e, st') \<Rightarrow> (st', [])
           | (Inr evs, st') \<Rightarrow> (st', evs))
      | Generate env r1 r2 r3 \<Rightarrow> generator_tick env r1 r2 r3 st)"

fun flow_run :: "FlowStep list \<Rightarrow> FlowState \<Rightarrow> FlowState \<times> FlowEvent list" where
  "flow_run [] st = (st, [])"
| "flow_run (step # steps) st =
     (let (st1, evs1) = flow_step step st;
          (st2, evs2) = flow_run steps st1
      in (st2, evs1 @ evs2))"


fun published_anomalies :: "FlowEvent list \<Rightarrow> (AnomalyType \<times> real) list" where
  "published_anomalies [] = []"
| "published_anomalies (FlowMetricsUpdated m # evs) = published_anomalies evs"
| "published_anomalies (AnomalyDetected a t c tm # evs) = (t, c) # published_anomalies evs"

section \<open>Incident correlation (modules/incidents.ts)\<close>

datatype IncidentStatus = active | investigating | mitigated | resolved

datatype TimelineType = detection | alert | action | update

text \<open>
  The payload of an \<open>alert.created\<close> event as its publishers build it (the leak monitor
  sends coordinates, the valve monitor a valve id) and as \<open>handleAlert\<close> reads it.
\<close>

record AlertEvent =
  ev_id :: "string option"
  ev_severity :: "string option"
  ev_message :: "string option"
  ev_moduleKey :: "string option"
  ev_latitude :: "real option"
  ev_longitude :: "real option"
  ev_valveId :: "string option"
  ev_timestamp :: "int option"

record TimelineEvent =
  tl_timestamp :: int
  tl_type :: TimelineType
  tl_title :: string
  tl_description :: string
  tl_metadata :: "AlertEvent option"

record Incident =
  inc_id :: string
  inc_title :: string
  inc_severity :: string
  inc_status :: IncidentStatus
  startedAt :: int
  resolvedAt :: "int option"
  affectedModules :: "string list"
  detectionIds :: "string list"
  alertIds :: "string list"
  rootCause :: "string option"
  resolution :: "string option"
  timeline :: "TimelineEvent list"

text \<open>
  What travels on the bus as far as this module is concerned: alerts, the two events the
  module publishes itself (incident id, severity, time), and any other event type.
\<close>

datatype BusEvent =
    AlertCreated AlertEvent
  | IncidentCreated string string int
  | IncidentUpdated string int
  | OtherEvent string

record IncidentState =
  incidents :: "(string \<times> Incident) list"
  alertQueue :: "AlertEvent list"

definition incidents_init :: IncidentState where
  "incidents_init = \<lparr>incidents = [], alertQueue = []\<rparr>"

text \<open>The clock and the results of the calls of \<^verbatim>\<open>uuid()\<close> in one handler run.\<close>

record IncEnv =
  inc_now :: int
  inc_uuid :: "nat \<Rightarrow> string"

text \<open>
  \<open>correlateAlerts\<close> returns one of the incident objects of the map, or null. The object
  is identified by its position among the map's values, so that the caller's mutation of
  it lands on that entry.
\<close>

definition correlateAlerts :: "int \<Rightarrow> AlertEvent \<Rightarrow> (string \<times> Incident) list \<Rightarrow> nat option" where
  "correlateAlerts now newAlert incs =
     (let twoMinutesAgo = now - 2 * 60 * 1000;
          recentIncidents =
            filter (\<lambda>(i, inc). inc_status inc \<noteq> resolved \<and> startedAt inc > twoMinutesAgo)
              (enumerate 0 (map_values incs))
      in if truthy_num (ev_latitude newAlert) \<and> truthy_num (ev_longitude newAlert)
         then map_option fst (find (\<lambda>(i, incident). length (detectionIds incident) > 0) recentIncidents)
         else None)"

definition createTimelineEvent ::
  "int \<Rightarrow> TimelineType \<Rightarrow> string \<Rightarrow> string \<Rightarrow> AlertEvent option \<Rightarrow> TimelineEvent" where
  "createTimelineEvent now ty title description metadata =
     \<lparr>tl_timestamp = now, tl_type = ty, tl_title = title, tl_description = description,
      tl_metadata = metadata\<rparr>"

text \<open>
  \<open>handleAlert\<close> is the listener registered on the bus. It ignores every event that is
  not \<open>alert.created\<close>. The events it publishes come back to it through the bus and are
  ignored in turn.
\<close>

definition alert_description :: "AlertEvent \<Rightarrow> string" where
  "alert_description event =
     or_str (map_option toUpperCase (ev_severity event)) ''INFO'' @ '': ''
       @ or_str (ev_message event) ''Alert''"

text \<open>The incident object built for an alert that was not correlated.\<close>

definition new_incident :: "IncEnv \<Rightarrow> AlertEvent \<Rightarrow> Incident" where
  "new_incident env event =
     \<lparr>inc_id = inc_uuid env 0,
      inc_title = or_str (ev_message event) ''Incident'',
      inc_severity = or_str (ev_severity event) ''warning'',
      inc_status = active,
      startedAt = inc_now env,
      resolvedAt = None,
      affectedModules = [or_str (ev_moduleKey event) ''valve-ops''],
      detectionIds = [],
      alertIds = [or_str (ev_id event) (inc_uuid env 1)],
      rootCause = None,
      resolution = None,
      timeline =
        [createTimelineEvent (inc_now env) alert ''Incident Started''
           (case ev_message event of None \<Rightarrow> ''undefined'' | Some m \<Rightarrow> m)
           (Some event)]\<rparr>"

definition handleAlert :: "IncEnv \<Rightarrow> BusEvent \<Rightarrow> IncidentState \<Rightarrow> IncidentState \<times> BusEvent list" where
  "handleAlert env ev st =
     (case ev of
        AlertCreated event \<Rightarrow>
          (let st1 = st\<lparr>alertQueue := alertQueue st @ [event]\<rparr> in
           case correlateAlerts (inc_now env) event (incidents st1) of
             Some i \<Rightarrow>
               (let (key, existingIncident) = incidents st1 ! i;
                    existing' = existingIncident
                      \<lparr>alertIds := alertIds existingIncident @ [or_str (ev_id event) (inc_uuid env 0)],
                       timeline := timeline existingIncident @
                         [createTimelineEvent (inc_now env) alert ''New alert''
                            (alert_description event) (Some event)]\<rparr>
                in (st1\<lparr>incidents := (incidents st1)[i := (key, existing')]\<rparr>,
                    [IncidentUpdated (inc_id existingIncident) (inc_now env)]))
           | None \<Rightarrow>
               (let incident = new_incident env event
                in (st1\<lparr>incidents := map_set (inc_id incident) incident (incidents st1)\<rparr>,
                    [IncidentCreated (inc_id incident) (inc_severity incident) (inc_now env)])))
      | _ \<Rightarrow> (st, []))"

datatype api_error = not_found

text \<open>\<^verbatim>\<open>POST /incidents/:id/update\<close> with the body's three optional fields.\<close>

record UpdateBody =
  b_status :: "IncidentStatus option"
  b_rootCause :: "string option"
  b_resolution :: "string option"

definition updateIncident ::
  "int \<Rightarrow> string \<Rightarrow> UpdateBody \<Rightarrow> IncidentState
    \<Rightarrow> (api_error + Incident) \<times> IncidentState \<times> BusEvent list" where
  "updateIncident now ident body st =
     (case map_get ident (incidents st) of
        None \<Rightarrow> (Inl not_found, st, [])
      | Some incident \<Rightarrow>
          (let i1 = (case b_status body of None \<Rightarrow> incident
                     | Some s \<Rightarrow> incident\<lparr>inc_status := s\<rparr>);
               i2 = (if truthy_str (b_rootCause body) then
                       i1\<lparr>rootCause := b_rootCause body,
                          timeline := timeline i1 @
                            [createTimelineEvent now update ''Root Cause Identified''
                               (the (b_rootCause body)) None]\<rparr>
                     else i1);
               i3 = (if truthy_str (b_resolution body) then
                       i2\<lparr>resolution := b_resolution body,
                          inc_status := resolved,
                          resolvedAt := Some now,
                          timeline := timeline i2 @
                            [createTimelineEvent now action ''Incident Resolved''
                               (the (b_resolution body)) None]\<rparr>
                     else i2)
           in (Inr i3, st\<lparr>incidents := map_set ident i3 (incidents st)\<rparr>,
               [IncidentUpdated (inc_id i3) now])))"

text \<open>
  \<^verbatim>\<open>GET /incidents/:id/timeline\<close>. \<^verbatim>\<open>incident.timeline.sort(cmp)\<close> sorts the array of
  the stored incident where it stands and returns that same array; the comparator
  \<^verbatim>\<open>time(b) - time(a)\<close> orders by descending timestamp, and the sort is stable.
\<close>

record TimelineResponse =
  r_incidentId :: string
  r_title :: string
  r_status :: IncidentStatus
  r_startedAt :: int
  r_resolvedAt :: "int option"
  r_timeline :: "TimelineEvent list"

definition getTimeline ::
  "string \<Rightarrow> IncidentState \<Rightarrow> (api_error + TimelineResponse) \<times> IncidentState" where
  "getTimeline ident st =
     (case map_get ident (incidents st) of
        None \<Rightarrow> (Inl not_found, st)
      | Some incident \<Rightarrow>
          (let sorted = sort_key (\<lambda>e. - tl_timestamp e) (timeline incident);
               incident' = incident\<lparr>timeline := sorted\<rparr>
           in (Inr \<lparr>r_incidentId = inc_id incident', r_title = inc_title incident',
                     r_status = inc_status incident', r_startedAt = startedAt incident',
                     r_resolvedAt = resolvedAt incident', r_timeline = sorted\<rparr>,
               st\<lparr>incidents := map_set ident incident' (incidents st)\<rparr>)))"

section \<open>Mission playback (modules/missions-lite.ts)\<close>

datatype MissionType = replay | scenario

datatype MissionStatus = draft | running | paused | completed

text \<open>
  The status \<^verbatim>\<open>"active"\<close> of a mission is written \<open>running\<close> here, since \<open>active\<close>
  is the incident status of the same name.
\<close>

record MissionEntry =
  me_timestamp :: string
  me_type :: string
  me_title :: string
  me_severity :: "string option"
  me_data :: string

record Mission =
  m_id :: string
  m_title :: string
  m_type :: MissionType
  m_status :: MissionStatus
  createdAt :: int
  m_startedAt :: "int option"
  completedAt :: "int option"
  m_timeline :: "MissionEntry list"
  playbackSpeed :: real

text \<open>
  The module keeps \<^verbatim>\<open>Mission\<close> objects in a map and one of them, or null, in
  \<open>activeMission\<close>; handlers mutate the objects they looked up, and \<open>start\<close> puts a fresh
  copy in both places. The objects therefore live in a store (\<open>objects\<close>, addressed by
  position), and the map and \<open>activeMission\<close> hold addresses.
\<close>

record MissionState =
  objects :: "Mission list"
  missions :: "(string \<times> nat) list"
  activeMission :: "nat option"

definition missions_init :: MissionState where
  "missions_init = \<lparr>objects = [], missions = [], activeMission = None\<rparr>"

datatype MissionEvent = MissionStarted string int | MissionCompleted string int

datatype MissionReply = Ok | OkSpeed real | Created Mission

type_synonym mission_result = "(api_error + MissionReply) \<times> MissionState \<times> MissionEvent list"

record MissionBody =
  mb_title :: "string option"
  mb_type :: "MissionType option"
  mb_timeline :: "MissionEntry list option"

text \<open>\<^verbatim>\<open>activeMission?.id === m.id\<close>\<close>

definition active_is :: "MissionState \<Rightarrow> string \<Rightarrow> bool" where
  "active_is st ident =
     (case activeMission st of None \<Rightarrow> False | Some a \<Rightarrow> m_id (objects st ! a) = ident)"

definition createMission :: "int \<Rightarrow> string \<Rightarrow> MissionBody \<Rightarrow> MissionState \<Rightarrow> mission_result" where
  "createMission now uuid body st =
     (let mission =
            \<lparr>m_id = uuid,
             m_title = or_str (mb_title body) ''Untitled'',
             m_type = nullish (mb_type body) replay,
             m_status = draft,
             createdAt = now,
             m_startedAt = None,
             completedAt = None,
             m_timeline = nullish (mb_timeline body) [],
             playbackSpeed = 1\<rparr>
      in (Inr (Created mission),
          st\<lparr>objects := objects st @ [mission],
             missions := map_set (m_id mission) (length (objects st)) (missions st)\<rparr>,
          []))"

definition startMission :: "int \<Rightarrow> string \<Rightarrow> MissionState \<Rightarrow> mission_result" where
  "startMission now ident st =
     (case map_get ident (missions st) of
        None \<Rightarrow> (Inl not_found, st, [])
      | Some r \<Rightarrow>
          (let m = objects st ! r;
               started = m\<lparr>m_status := running, m_startedAt := Some now\<rparr>
           in (Inr Ok,
               st\<lparr>objects := objects st @ [started],
                  activeMission := Some (length (objects st)),
                  missions := map_set (m_id m) (length (objects st)) (missions st)\<rparr>,
               [MissionStarted (m_id m) now])))"

definition pauseMission :: "string \<Rightarrow> MissionState \<Rightarrow> mission_result" where
  "pauseMission ident st =
     (case map_get ident (missions st) of
        None \<Rightarrow> (Inl not_found, st, [])
      | Some r \<Rightarrow>
          (let m = (objects st ! r)\<lparr>m_status := paused\<rparr>;
               st1 = st\<lparr>objects := (objects st)[r := m]\<rparr>
           in (Inr Ok,
               (if active_is st1 (m_id m) then st1\<lparr>activeMission := None\<rparr> else st1),
               [])))"

definition resumeMission :: "string \<Rightarrow> MissionState \<Rightarrow> mission_result" where
  "resumeMission ident st =
     (case map_get ident (missions st) of
        None \<Rightarrow> (Inl not_found, st, [])
      | Some r \<Rightarrow>
          (let m = (objects st ! r)\<lparr>m_status := running\<rparr>
           in (Inr Ok, st\<lparr>objects := (objects st)[r := m], activeMission := Some r\<rparr>, [])))"

definition stopMission :: "int \<Rightarrow> string \<Rightarrow> MissionState \<Rightarrow> mission_result" where
  "stopMission now ident st =
     (case map_get ident (missions st) of
        None \<Rightarrow> (Inl not_found, st, [])
      | Some r \<Rightarrow>
          (let m = (objects st ! r)\<lparr>m_status := completed, completedAt := Some now\<rparr>;
               st1 = st\<lparr>objects := (objects st)[r := m]\<rparr>
           in (Inr Ok,
               (if active_is st1 (m_id m) then st1\<lparr>activeMission := None\<rparr> else st1),
               [MissionCompleted (m_id m) now])))"

definition setSpeed :: "string \<Rightarrow> real \<Rightarrow> MissionState \<Rightarrow> mission_result" where
  "setSpeed ident speed st =
     (case map_get ident (missions st) of
        None \<Rightarrow> (Inl not_found, st, [])
      | Some r \<Rightarrow>
          (let m = (objects st ! r)\<lparr>playbackSpeed := max 0.1 (min 10 speed)\<rparr>
           in (Inr (OkSpeed (playbackSpeed m)), st\<lparr>objects := (objects st)[r := m]\<rparr>, [])))"

definition branchMission ::
  "int \<Rightarrow> string \<Rightarrow> string \<Rightarrow> string option \<Rightarrow> MissionState \<Rightarrow> mission_result" where
  "branchMission now uuid ident title st =
     (case map_get ident (missions st) of
        None \<Rightarrow> (Inl not_found, st, [])
      | Some r \<Rightarrow>
          (let source = objects st ! r;
               scn = source
                 \<lparr>m_id := uuid,
                  m_type := scenario,
                  m_title := or_str title (m_title source @ '' (Scenario)''),
                  m_status := draft,
                  createdAt := now\<rparr>
           in (Inr (Created scn),
               st\<lparr>objects := objects st @ [scn],
                  missions := map_set (m_id scn) (length (objects st)) (missions st)\<rparr>,
               [])))"

section \<open>ROS2 bridge: node registry, telemetry loops, commands, heartbeat (ros2-bridge.ts)\<close>

datatype NodeType = robot | sensor | gateway | stationary

datatype Health = ok | degraded | offline

record ROS2Node =
  node_name :: string
  node_namespace :: string
  node_type :: NodeType
  location :: "(real \<times> real \<times> real option) option"
  topics_subscribe :: "string list"
  topics_publish :: "string list"
  lastSeen :: int
  health :: Health

text \<open>
  The \<open>data\<close> of a telemetry message: the three fields the bridge passes on to the flow
  module, and the other fields by name, as text.
\<close>

record TelemetryData =
  d_flowRateLpm :: "real option"
  d_pressurePa :: "real option"
  d_temperatureC :: "real option"
  d_other :: "(string \<times> string) list"

record ROS2Telemetry =
  t_nodeId :: string
  t_topic :: string
  t_data :: TelemetryData
  t_timestamp :: int

record ROS2Command =
  c_nodeId :: string
  c_topic :: string
  c_action :: string
  c_params :: "(string \<times> string) list"
  c_priority :: string
  c_timeout :: "real option"

datatype CommandStatus = pending | sent | acked | failed | timeout

record ROS2CommandResult =
  commandId :: string
  cr_status :: CommandStatus
  cr_nodeId :: string
  cr_timestamp :: int
  cr_error :: "string option"

text \<open>
  The bridge's fields, and the timers it has started: the telemetry loops
  (\<^verbatim>\<open>setInterval\<close> in \<open>subscribeTelemetry\<close>, one per call, with its node and topic), the
  acknowledgement timers (\<^verbatim>\<open>setTimeout\<close> in \<open>publishCommand\<close>, with the command id and
  the delay in milliseconds) and the heartbeat timer.
\<close>

record BridgeState =
  nodes :: "(string \<times> ROS2Node) list"
  telemetryBuffer :: "ROS2Telemetry list"
  commandHistory :: "(string \<times> ROS2CommandResult) list"
  telemetryLoops :: "(string \<times> string) list"
  ackTimers :: "(string \<times> real) list"
  heartbeatTimer :: bool

definition bridge_init :: BridgeState where
  "bridge_init = \<lparr>nodes = [], telemetryBuffer = [], commandHistory = [],
                   telemetryLoops = [], ackTimers = [], heartbeatTimer = False\<rparr>"

text \<open>
  What the bridge sends out: events on its own emitter (\<^verbatim>\<open>this.emit\<close>), events on the
  shared bus (\<^verbatim>\<open>bus.emit("event", ...)\<close>) and calls of \<open>ingestFlowTelemetry\<close>.
\<close>

datatype BridgeOutput =
    Emit_node_registered string ROS2Node
  | Emit_error string
  | Emit_telemetry ROS2Telemetry
  | Emit_command_sent string ROS2Command
  | Emit_command_acked ROS2CommandResult
  | Emit_node_offline string ROS2Node
  | Bus_node_discovered string NodeType "(real \<times> real \<times> real option) option" int
  | Bus_telemetry string string TelemetryData int
  | Bus_node_offline string int
  | Call_ingestFlowTelemetry FlowSample

datatype bridge_error =
    NodeNotFound string
  | TopicNotSubscribed string string
  | TopicNotPublished string string

definition registerNode :: "int \<Rightarrow> ROS2Node \<Rightarrow> BridgeState \<Rightarrow> BridgeState \<times> BridgeOutput list" where
  "registerNode now node st =
     (let nodeId = node_namespace node @ ''/'' @ node_name node
      in (st\<lparr>nodes := map_set nodeId node (nodes st)\<rparr>,
          [Emit_node_registered nodeId node,
           Bus_node_discovered nodeId (node_type node) (location node) now]))"

text \<open>
  \<open>subscribeTelemetry\<close> reports a failure with \<^verbatim>\<open>this.emit("error", ...)\<close> and returns
  without starting a loop.
\<close>

definition subscribeTelemetry ::
  "string \<Rightarrow> string \<Rightarrow> BridgeState \<Rightarrow> (bridge_error + unit) \<times> BridgeState \<times> BridgeOutput list" where
  "subscribeTelemetry nodeId topic st =
     (case map_get nodeId (nodes st) of
        None \<Rightarrow> (Inl (NodeNotFound nodeId), st, [Emit_error (''Node '' @ nodeId @ '' not found'')])
      | Some node \<Rightarrow>
          if topic \<notin> set (topics_subscribe node) then
            (Inl (TopicNotSubscribed nodeId topic), st,
             [Emit_error (''Node '' @ nodeId @ '' does not publish '' @ topic)])
          else (Inr (), st\<lparr>telemetryLoops := telemetryLoops st @ [(nodeId, topic)]\<rparr>, []))"

text \<open>
  One round of a telemetry loop, with the data \<open>generateMockTelemetry\<close> produced. A
  loop that finds its node gone clears itself. A round of a loop that is not running
  does not happen.
\<close>

definition telemetryTick ::
  "int \<Rightarrow> string \<Rightarrow> string \<Rightarrow> TelemetryData \<Rightarrow> BridgeState \<Rightarrow> BridgeState \<times> BridgeOutput list" where
  "telemetryTick now nodeId topic data st =
     (if (nodeId, topic) \<notin> set (telemetryLoops st) then (st, [])
      else if \<not> map_has nodeId (nodes st) then
        (st\<lparr>telemetryLoops := remove1 (nodeId, topic) (telemetryLoops st)\<rparr>, [])
      else
        (let telemetry = \<lparr>t_nodeId = nodeId, t_topic = topic, t_data = data, t_timestamp = now\<rparr>
         in (st\<lparr>telemetryBuffer := push_bounded 1000 telemetry (telemetryBuffer st)\<rparr>,
             [Bus_telemetry nodeId topic data now]
             @ (if str_includes topic ''flow'' \<and> d_flowRateLpm data \<noteq> None then
                  [Call_ingestFlowTelemetry
                     \<lparr>s_flowRateLpm = d_flowRateLpm data, s_pressurePa = d_pressurePa data,
                      s_temperatureC = d_temperatureC data, s_timestamp = Some now\<rparr>]
                else [])
             @ [Emit_telemetry telemetry])))"

text \<open>
  \<open>publishCommand\<close> throws for an unknown node or an undeclared topic. Otherwise it
  stores a pending result under a new command id and starts the acknowledgement timer
  with delay \<^verbatim>\<open>Math.random() * 2000 + 500\<close>. The id
  (\<^verbatim>\<open>cmd_<clock>_<random>\<close>) and the value \<open>r\<close> of \<^verbatim>\<open>Math.random()\<close> are arguments.
\<close>

definition ack_delay :: "real \<Rightarrow> real" where
  "ack_delay r = r * 2000 + 500"

definition publishCommand ::
  "int \<Rightarrow> string \<Rightarrow> real \<Rightarrow> ROS2Command \<Rightarrow> BridgeState
    \<Rightarrow> (bridge_error + ROS2CommandResult) \<times> BridgeState \<times> BridgeOutput list" where
  "publishCommand now cid r cmd st =
     (case map_get (c_nodeId cmd) (nodes st) of
        None \<Rightarrow> (Inl (NodeNotFound (c_nodeId cmd)), st, [])
      | Some node \<Rightarrow>
          if c_topic cmd \<notin> set (topics_publish node) then
            (Inl (TopicNotPublished (c_nodeId cmd) (c_topic cmd)), st, [])
          else
            (let result = \<lparr>commandId = cid, cr_status = pending, cr_nodeId = c_nodeId cmd,
                            cr_timestamp = now, cr_error = None\<rparr>
             in (Inr result,
                 st\<lparr>commandHistory := map_set cid result (commandHistory st),
                    ackTimers := ackTimers st @ [(cid, ack_delay r)]\<rparr>,
                 [Emit_command_sent cid cmd])))"

text \<open>
  The acknowledgement timer of command \<open>cid\<close> goes off (once: the timer is then gone).
  The callback looks the result up again and acknowledges it if it is still pending.
\<close>

definition ackTimer :: "string \<Rightarrow> BridgeState \<Rightarrow> BridgeState \<times> BridgeOutput list" where
  "ackTimer cid st =
     (case find (\<lambda>(c, d). c = cid) (ackTimers st) of
        None \<Rightarrow> (st, [])
      | Some tm \<Rightarrow>
          (let st1 = st\<lparr>ackTimers := remove1 tm (ackTimers st)\<rparr> in
           case map_get cid (commandHistory st1) of
             None \<Rightarrow> (st1, [])
           | Some res \<Rightarrow>
               if cr_status res = pending then
                 (let res' = res\<lparr>cr_status := acked\<rparr>
                  in (st1\<lparr>commandHistory := map_set cid res' (commandHistory st1)\<rparr>,
                      [Emit_command_acked res']))
               else (st1, [])))"

definition getCommandStatus :: "string \<Rightarrow> BridgeState \<Rightarrow> ROS2CommandResult option" where
  "getCommandStatus cid st = map_get cid (commandHistory st)"

definition markNodeOffline :: "int \<Rightarrow> string \<Rightarrow> BridgeState \<Rightarrow> BridgeState \<times> BridgeOutput list" where
  "markNodeOffline now nodeId st =
     (case map_get nodeId (nodes st) of
        None \<Rightarrow> (st, [])
      | Some node \<Rightarrow>
          (let node' = node\<lparr>health := offline, lastSeen := now\<rparr>
           in (st\<lparr>nodes := map_set nodeId node' (nodes st)\<rparr>,
               [Emit_node_offline nodeId node', Bus_node_offline nodeId now])))"

text \<open>The monitor's test on one node: \<^verbatim>\<open>now - node.lastSeen > 60000\<close>.\<close>

definition stale :: "int \<Rightarrow> ROS2Node \<Rightarrow> bool" where
  "stale now node = (now - lastSeen node > 60000)"

text \<open>
  One round of the heartbeat monitor (every 30 s while the timer runs):
  \<^verbatim>\<open>this.nodes.forEach\<close> visits the nodes in insertion order and marks the stale ones.
\<close>

fun heartbeat_visit :: "int \<Rightarrow> string list \<Rightarrow> BridgeState \<Rightarrow> BridgeState \<times> BridgeOutput list" where
  "heartbeat_visit now [] st = (st, [])"
| "heartbeat_visit now (nodeId # rest) st =
     (let (st1, out1) =
            (case map_get nodeId (nodes st) of
               None \<Rightarrow> (st, [])
             | Some node \<Rightarrow> if stale now node then markNodeOffline now nodeId st else (st, []));
          (st2, out2) = heartbeat_visit now rest st1
      in (st2, out1 @ out2))"

definition heartbeatTick :: "int \<Rightarrow> BridgeState \<Rightarrow> BridgeState \<times> BridgeOutput list" where
  "heartbeatTick now st =
     (if heartbeatTimer st then heartbeat_visit now (map fst (nodes st)) st else (st, []))"

definition initialize :: "int \<Rightarrow> BridgeState \<Rightarrow> BridgeState \<times> BridgeOutput list" where
  "initialize now st =
     (let (st1, out1) =
            registerNode now
              \<lparr>node_name = ''robot_01'', node_namespace = ''/fleet/robots'', node_type = robot,
               location = Some (40.7128, -74.006, Some 0),
               topics_subscribe = [''/tf'', ''/sensor_data/imu'', ''/sensor_data/lidar''],
               topics_publish = [''/cmd/velocity'', ''/cmd/mission''],
               lastSeen = now, health = ok\<rparr> st;
          (st2, out2) =
            registerNode now
              \<lparr>node_name = ''sensor_gateway_01'', node_namespace = ''/field/sensors'',
               node_type = gateway, location = Some (40.7129, -74.005, None),
               topics_subscribe = [''/sensor_data/pressure'', ''/sensor_data/flow''],
               topics_publish = [''/alert/pressure_anomaly'', ''/alert/flow_anomaly''],
               lastSeen = now, health = ok\<rparr> st1
      in (st2\<lparr>heartbeatTimer := True\<rparr>, out1 @ out2))"

definition shutdown :: "BridgeState \<Rightarrow> BridgeState" where
  "shutdown st = st\<lparr>heartbeatTimer := False\<rparr>"

text \<open>A run of the bridge: calls of its methods and firings of its timers, in any order.\<close>

datatype BridgeAction =
    Initialize int
  | RegisterNode int ROS2Node
  | SubscribeTelemetry string string
  | TelemetryTick int string string TelemetryData
  | PublishCommand int string real ROS2Command
  | AckTimer string
  | MarkNodeOffline int string
  | HeartbeatTick int
  | Shutdown

definition bridge_step :: "BridgeAction \<Rightarrow> BridgeState \<Rightarrow> BridgeState \<times> BridgeOutput list" where
  "bridge_step a st =
     (case a of
        Initialize now \<Rightarrow> initialize now st
      | RegisterNode now node \<Rightarrow> registerNode now node st
      | SubscribeTelemetry nodeId topic \<Rightarrow>
          (let (r, st', out) = subscribeTelemetry nodeId topic st in (st', out))
      | TelemetryTick now nodeId topic data \<Rightarrow> telemetryTick now nodeId topic data st
      | PublishCommand now cid r cmd \<Rightarrow>
          (let (res, st', out) = publishCommand now cid r cmd st in (st', out))
      | AckTimer cid \<Rightarrow> ackTimer cid st
      | MarkNodeOffline now nodeId \<Rightarrow> markNodeOffline now nodeId st
      | HeartbeatTick now \<Rightarrow> heartbeatTick now st
      | Shutdown \<Rightarrow> (shutdown st, []))"

fun bridge_run :: "BridgeAction list \<Rightarrow> BridgeState \<Rightarrow> BridgeState" where
  "bridge_run [] st = st"
| "bridge_run (a # as) st = bridge_run as (fst (bridge_step a st))"

section \<open>The event bus (sse.ts)\<close>

text \<open>
  \<open>bus\<close> is a plain Node.js \<open>EventEmitter\<close>, and every publisher calls
  \<^verbatim>\<open>bus.emit("event", ev)\<close>. \<open>emit\<close> calls the listeners registered with \<open>on\<close> one after
  the other, in registration order, on the caller's stack; it has no handler for an
  exception, so an exception thrown by a listener leaves \<open>emit\<close> at once and reaches the
  publisher. No listener and no call of \<^verbatim>\<open>bus.emit\<close> in the repository stands inside a
  \<^verbatim>\<open>try\<close>. A listener is a function on the state of the process that returns the state
  it leaves behind and the exception it threw, if any; \<open>emit\<close> returns the state reached,
  how many listeners were called, and the exception that ended the dispatch, if any.
\<close>

type_synonym ('ev, 's, 'x) listener = "'ev \<Rightarrow> 's \<Rightarrow> 's \<times> 'x option"

fun emit :: "('ev, 's, 'x) listener list \<Rightarrow> 'ev \<Rightarrow> 's \<Rightarrow> 's \<times> nat \<times> 'x option" where
  "emit [] ev s = (s, 0, None)"
| "emit (l # ls) ev s =
     (case l ev s of
        (s', Some x) \<Rightarrow> (s', 1, Some x)
      | (s', None) \<Rightarrow> (let (s'', n, r) = emit ls ev s' in (s'', Suc n, r)))"

section \<open>Auxiliary notions and scenarios\<close>


text \<open>Every command result on record is pending or acknowledged.\<close>

definition settled :: "BridgeState \<Rightarrow> bool" where
  "settled st = (\<forall>(c, res) \<in> set (commandHistory st). cr_status res = pending \<or> cr_status res = acked)"


text \<open>
  Scenario: a flow sensor reports through \<open>ingestFlowTelemetry\<close>; only the flow rate is
  given, the clock is \<open>t\<close>.
\<close>

definition ex_env :: "int \<Rightarrow> FlowEnv" where
  "ex_env t = \<lparr>env_now = t, env_uuid = (\<lambda>k. ''anomaly-'' @ replicate k CHR ''x'')\<rparr>"

definition ex_sample :: "real \<Rightarrow> FlowSample" where
  "ex_sample f = \<lparr>s_flowRateLpm = Some f, s_pressurePa = None, s_temperatureC = None,
                  s_timestamp = None\<rparr>"

text \<open>The state after two readings of 150 l/min, five seconds apart.\<close>

definition ex_two :: FlowState where
  "ex_two = fst (flow_run [Ingest (ex_env 5000) (ex_sample 150),
                           Ingest (ex_env 10000) (ex_sample 150)] flow_init)"




text \<open>
  Scenario: the bridge is initialised at time 0, a telemetry loop on the flow topic of the
  sensor gateway is started, and the loop delivers a reading every 5 s while the heartbeat
  monitor runs every 30 s.
\<close>

definition gateway_id :: string where
  "gateway_id = ''/field/sensors/sensor_gateway_01''"



text \<open>Scenario: a command to the robot registered by \<open>initialize\<close>.\<close>

definition stop_robot :: ROS2Command where
  "stop_robot = \<lparr>c_nodeId = ''/fleet/robots/robot_01'', c_topic = ''/cmd/velocity'',
                  c_action = ''stop'', c_params = [], c_priority = ''high'', c_timeout = None\<rparr>"

text \<open>
  An incident is open and recent at time \<open>now\<close> when it is not resolved and started less
  than two minutes ago (the filter of \<open>correlateAlerts\<close>); an alert is located when its
  latitude and longitude are truthy.
\<close>

definition open_recent :: "int \<Rightarrow> Incident \<Rightarrow> bool" where
  "open_recent now inc = (inc_status inc \<noteq> resolved \<and> startedAt inc > now - 2 * 60 * 1000)"

definition located :: "AlertEvent \<Rightarrow> bool" where
  "located event = (truthy_num (ev_latitude event) \<and> truthy_num (ev_longitude event))"

text \<open>
  Scenario: the alerts the leak monitor and the valve monitor publish, and the
  environment of the handler at time \<open>t\<close>, where \<open>uuid()\<close> returns \<open>u\<close> with a suffix.
\<close>

definition leak_alert :: "int \<Rightarrow> AlertEvent" where
  "leak_alert t =
     \<lparr>ev_id = None, ev_severity = Some ''critical'',
      ev_message = Some ''CRITICAL leak detected in A-North. Estimated volume: 900.0L'',
      ev_moduleKey = None, ev_latitude = Some 40.5, ev_longitude = Some (-119.5),
      ev_valveId = None, ev_timestamp = Some t\<rparr>"

definition valve_alert :: "int \<Rightarrow> AlertEvent" where
  "valve_alert t =
     \<lparr>ev_id = None, ev_severity = Some ''warning'',
      ev_message = Some ''High temperature: 85.0C'',
      ev_moduleKey = None, ev_latitude = None, ev_longitude = None,
      ev_valveId = Some ''v-101'', ev_timestamp = Some t\<rparr>"

definition inc_env :: "int \<Rightarrow> string \<Rightarrow> IncEnv" where
  "inc_env t u = \<lparr>inc_now = t, inc_uuid = (\<lambda>k. u @ (if k = 0 then ''a'' else ''b''))\<rparr>"

text \<open>Two leak alerts, and two valve alerts, ten seconds apart.\<close>

definition after_leak :: IncidentState where
  "after_leak = fst (handleAlert (inc_env 1000 ''1000-k'') (AlertCreated (leak_alert 1000)) incidents_init)"

definition after_two_leaks :: IncidentState where
  "after_two_leaks =
     fst (handleAlert (inc_env 11000 ''11000-m'') (AlertCreated (leak_alert 11000)) after_leak)"

definition after_valve :: IncidentState where
  "after_valve = fst (handleAlert (inc_env 1000 ''1000-k'') (AlertCreated (valve_alert 1000)) incidents_init)"

definition after_two_valves :: IncidentState where
  "after_two_valves =
     fst (handleAlert (inc_env 11000 ''11000-m'') (AlertCreated (valve_alert 11000)) after_valve)"

text \<open>The incident of the first valve alert, with its root cause recorded a second later.\<close>

definition diagnosed :: IncidentState where
  "diagnosed =
     fst (snd (updateIncident 2000 ''1000-ka''
       \<lparr>b_status = Some investigating, b_rootCause = Some ''Seal failure'', b_resolution = None\<rparr>
       after_valve))"

text \<open>Listeners on a process state that is a log of lines: one that logs, one that throws.\<close>

definition logger :: "string \<Rightarrow> (string, string list, string) listener" where
  "logger name ev s = (s @ [name @ '' got '' @ ev], None)"

definition faulty :: "(string, string list, string) listener" where
  "faulty ev s = (s, Some ''TypeError'')"

text \<open>Scenario: one mission, created at time 0.\<close>

definition one_mission :: MissionState where
  "one_mission =
     fst (snd (createMission 0 ''0-q''
       \<lparr>mb_title = Some ''Leak walkdown'', mb_type = None, mb_timeline = None\<rparr> missions_init))"

section \<open>Properties of the flow module\<close>

subsection \<open>Arrays and windows\<close>







lemma length_slice_last: "length (slice_last n xs) = min n (length xs)"
  by (auto simp: slice_last_def)






subsection \<open>Recording a sample\<close>

lemma record_sample_history:
  "metricsHistory (fst (record_sample env c st)) = push_bounded 100 c (metricsHistory st)"
  by (simp add: record_sample_def Let_def)

lemma record_sample_anomalies:
  "anomalyHistory (fst (record_sample env c st)) =
     anomalyHistory st @ detectAnomalies env (push_bounded 100 c (metricsHistory st)) c"
  by (simp add: record_sample_def Let_def)

lemma record_sample_events:
  "snd (record_sample env c st) =
     map (anomaly_event env) (detectAnomalies env (push_bounded 100 c (metricsHistory st)) c)
       @ [FlowMetricsUpdated c]"
  by (simp add: record_sample_def Let_def)

lemma detect_window_short:
  "length (slice_last 10 history) < 3 \<Longrightarrow> detectAnomalies env history c = []"
  by (simp add: detectAnomalies_def Let_def)



lemma flow_step_cases:
  obtains (idle) "anomalyHistory (fst (flow_step step st)) = anomalyHistory st"
                 "metricsHistory (fst (flow_step step st)) = metricsHistory st"
                 "snd (flow_step step st) = []"
  | (recorded) env c b where "flow_step step st = record_sample env c (st\<lparr>ros2Active := b\<rparr>)"
proof (cases step)
  case (Ingest env sample)
  show ?thesis
  proof (cases "sample_time (env_now env) (s_timestamp sample)")
    case (Inl e)
    with Ingest have "flow_step step st = (st\<lparr>ros2Active := True\<rparr>, [])"
      by (simp add: flow_step_def ingestFlowTelemetry_def Let_def)
    then show ?thesis by (intro idle) simp_all
  next
    case (Inr ts)
    with Ingest have "\<exists>c. flow_step step st = record_sample env c (st\<lparr>ros2Active := True\<rparr>)"
      by (simp add: flow_step_def ingestFlowTelemetry_def Let_def split_beta) blast
    then show ?thesis using recorded by blast
  qed
next
  case (Generate env r1 r2 r3)
  show ?thesis
  proof (cases "ros2Active st")
    case True
    with Generate have "flow_step step st = (st, [])"
      by (simp add: flow_step_def generator_tick_def)
    then show ?thesis by (intro idle) simp_all
  next
    case False
    then have same: "st\<lparr>ros2Active := False\<rparr> = st" by simp
    from Generate False
    have "\<exists>c. flow_step step st = record_sample env c st"
      by (simp add: flow_step_def generator_tick_def Let_def) blast
    then have "\<exists>c. flow_step step st = record_sample env c (st\<lparr>ros2Active := False\<rparr>)"
      by (simp only: same)
    then show ?thesis using recorded by blast
  qed
qed

lemma published_anomalies_append:
  "published_anomalies (xs @ ys) = published_anomalies xs @ published_anomalies ys"
  by (induction xs rule: published_anomalies.induct) simp_all




lemma flow_step_history_length:
  "length (metricsHistory (fst (flow_step step st))) \<le> Suc (length (metricsHistory st))"
proof (cases step st rule: flow_step_cases)
  case idle
  then show ?thesis by simp
next
  case (recorded env c b)
  then show ?thesis
    by (simp add: record_sample_history push_bounded_def Let_def)
qed

lemma flow_step_no_check:
  assumes "length (slice_last 10 (metricsHistory (fst (flow_step step st)))) < 3"
  shows "anomalyHistory (fst (flow_step step st)) = anomalyHistory st
       \<and> published_anomalies (snd (flow_step step st)) = []"
proof (cases step st rule: flow_step_cases)
  case idle
  then show ?thesis by simp
next
  case (recorded env c b)
  with assms have "detectAnomalies env (push_bounded 100 c (metricsHistory st)) c = []"
    by (simp add: record_sample_history detect_window_short)
  with recorded show ?thesis
    by (simp add: record_sample_anomalies record_sample_events)
qed

subsection \<open>Runs\<close>






subsection \<open>The scenarios\<close>

lemma ex_two_eq: "ex_two = \<lparr>metricsHistory =
   [\<lparr>flowRateLpm = 150, pressurePa = 2500000, temperatureC = 45, timestamp = 5000\<rparr>,
    \<lparr>flowRateLpm = 150, pressurePa = 2500000, temperatureC = 45, timestamp = 10000\<rparr>],
   anomalyHistory = [], ros2Active = True\<rparr>"
  by (simp add: ex_two_def flow_step_def ingestFlowTelemetry_def sample_time_def ex_env_def
      ex_sample_def flow_init_def record_sample_def push_bounded_def detectAnomalies_def
      slice_last_def nullish_def baselineMetrics_def Let_def)









lemma ex_third_reading:
  "ingestFlowTelemetry (ex_env 15000) (ex_sample 300) ex_two =
     (Inr [AnomalyDetected ''flow-system'' flow_rate_deviation 0.7 15000,
           FlowMetricsUpdated \<lparr>flowRateLpm = 300, pressurePa = 2500000, temperatureC = 45,
                                 timestamp = 15000\<rparr>],
      ex_two\<lparr>metricsHistory := metricsHistory ex_two @
                 [\<lparr>flowRateLpm = 300, pressurePa = 2500000, temperatureC = 45,
                   timestamp = 15000\<rparr>],
              anomalyHistory :=
                 [\<lparr>anomaly_id = ''anomaly-'', anomaly_type = flow_rate_deviation,
                   severity = medium, detectedAt = 15000,
                   metrics = [(''flowRateLpm'', 300)], expectedRange = (150, 250),
                   actualValue = 300\<rparr>]\<rparr>)"
  by (simp add: ex_two_eq ingestFlowTelemetry_def sample_time_def ex_env_def
      ex_sample_def record_sample_def push_bounded_def detectAnomalies_def average_def
      slice_last_def nullish_def Let_def anomaly_event_def)

section \<open>Claims on the flow module\<close>



text \<open>
  Claim C9. From the fresh state of the detector, whatever the first two steps are
  (calls of \<open>ingestFlowTelemetry\<close> with any samples, or generator rounds), the anomaly
  history stays empty and no \<open>anomaly.detected\<close> event is published; and a step of any
  state that adds an anomaly or publishes \<open>anomaly.detected\<close> leaves at least 3 samples in
  the rolling window.
\<close>

theorem first_two_samples_normal:
  "(\<forall>steps. length steps \<le> 2 \<longrightarrow>
       anomalyHistory (fst (flow_run steps flow_init)) = []
     \<and> published_anomalies (snd (flow_run steps flow_init)) = [])
   \<and> (\<forall>step st.
         anomalyHistory (fst (flow_step step st)) \<noteq> anomalyHistory st
         \<or> published_anomalies (snd (flow_step step st)) \<noteq> []
       \<longrightarrow> 3 \<le> length (slice_last 10 (metricsHistory (fst (flow_step step st)))))"
proof (intro conjI allI impI)
  fix step st
  assume "anomalyHistory (fst (flow_step step st)) \<noteq> anomalyHistory st
         \<or> published_anomalies (snd (flow_step step st)) \<noteq> []"
  then show "3 \<le> length (slice_last 10 (metricsHistory (fst (flow_step step st))))"
    using flow_step_no_check[of step st] by (meson not_less)
next
  fix steps :: "FlowStep list"
  assume len: "length steps \<le> 2"
  have short: "length (slice_last 10 xs) < 3" if "length xs \<le> 2" for xs :: "FlowMetrics list"
    using that by (simp add: length_slice_last)
  have one: "anomalyHistory (fst (flow_step a st)) = anomalyHistory st
           \<and> published_anomalies (snd (flow_step a st)) = []
           \<and> length (metricsHistory (fst (flow_step a st))) \<le> Suc (length (metricsHistory st))"
    if "length (metricsHistory st) \<le> 1" for a st
  proof -
    have "length (metricsHistory (fst (flow_step a st))) \<le> 2"
      using flow_step_history_length[of a st] that by simp
    then show ?thesis
      using flow_step_no_check[OF short] flow_step_history_length by blast
  qed
  consider "steps = []" | a where "steps = [a]" | a b where "steps = [a, b]"
    using len by (cases steps rule: list.exhaust; cases "tl steps"; cases "tl (tl steps)") auto
  then have "anomalyHistory (fst (flow_run steps flow_init)) = []
     \<and> published_anomalies (snd (flow_run steps flow_init)) = []"
  proof cases
    case 1
    then show ?thesis by (simp add: flow_init_def)
  next
    case 2
    have "length (metricsHistory flow_init) \<le> 1" by (simp add: flow_init_def)
    from one[OF this, of a] 2 show ?thesis
      by (simp add: split_beta flow_init_def)
  next
    case 3
    have i: "length (metricsHistory flow_init) \<le> 1" by (simp add: flow_init_def)
    from one[OF i, of a] have a: "anomalyHistory (fst (flow_step a flow_init)) = []"
      "published_anomalies (snd (flow_step a flow_init)) = []"
      "length (metricsHistory (fst (flow_step a flow_init))) \<le> 1"
      by (simp_all add: flow_init_def)
    from one[OF a(3), of b] a 3 show ?thesis
      by (simp add: split_beta published_anomalies_append)
  qed
  then show "anomalyHistory (fst (flow_run steps flow_init)) = []"
    and "published_anomalies (snd (flow_run steps flow_init)) = []" by simp_all
qed

text \<open>
  The theorem at work: readings of 400 and 10 pass without an anomaly; the third reading
  of the scenario above does raise one, with three samples in the window.
\<close>

theorem first_two_samples_normal_witness:
  "length [Ingest (ex_env 5000) (ex_sample 400), Ingest (ex_env 10000) (ex_sample 10)] \<le> 2
   \<and> anomalyHistory (fst (flow_run [Ingest (ex_env 5000) (ex_sample 400),
                                     Ingest (ex_env 10000) (ex_sample 10)] flow_init)) = []
   \<and> published_anomalies (snd (flow_run [Ingest (ex_env 5000) (ex_sample 400),
                                          Ingest (ex_env 10000) (ex_sample 10)] flow_init)) = []
   \<and> anomalyHistory (fst (flow_step (Ingest (ex_env 15000) (ex_sample 300)) ex_two))
        \<noteq> anomalyHistory ex_two
   \<and> 3 \<le> length (slice_last 10
              (metricsHistory (fst (flow_step (Ingest (ex_env 15000) (ex_sample 300)) ex_two))))"
proof -
  let ?steps = "[Ingest (ex_env 5000) (ex_sample 400), Ingest (ex_env 10000) (ex_sample 10)]"
  let ?third = "Ingest (ex_env 15000) (ex_sample 300)"
  have short: "length ?steps \<le> 2" by simp
  have changed: "anomalyHistory (fst (flow_step ?third ex_two)) \<noteq> anomalyHistory ex_two"
    by (simp add: flow_step_def ex_third_reading) (simp add: ex_two_eq)
  from first_two_samples_normal have
    first: "\<forall>steps. length steps \<le> 2 \<longrightarrow>
       anomalyHistory (fst (flow_run steps flow_init)) = []
     \<and> published_anomalies (snd (flow_run steps flow_init)) = []"
    and later: "\<forall>step st.
         anomalyHistory (fst (flow_step step st)) \<noteq> anomalyHistory st
         \<or> published_anomalies (snd (flow_step step st)) \<noteq> []
       \<longrightarrow> 3 \<le> length (slice_last 10 (metricsHistory (fst (flow_step step st))))"
    by blast+
  from first short have "anomalyHistory (fst (flow_run ?steps flow_init)) = []
     \<and> published_anomalies (snd (flow_run ?steps flow_init)) = []"
    by blast
  moreover from later changed
  have "3 \<le> length (slice_last 10 (metricsHistory (fst (flow_step ?third ex_two))))"
    by blast
  ultimately show ?thesis using short changed by blast
qed



section \<open>Properties of the bridge\<close>

subsection \<open>Maps\<close>

lemma map_get_set_same: "map_get k (map_set k v m) = Some v"
  by (induction m) (auto simp: map_get_def)

lemma map_get_set_other: "k' \<noteq> k \<Longrightarrow> map_get k' (map_set k v m) = map_get k' m"
  by (induction m) (auto simp: map_get_def)

lemma map_set_keys: "map_get k m = Some v' \<Longrightarrow> map fst (map_set k v m) = map fst m"
  by (induction m) (auto simp: map_get_def split: if_splits)

lemma map_set_fresh: "map_get k m = None \<Longrightarrow> map_set k v m = m @ [(k, v)]"
  by (induction m) (auto simp: map_get_def split: if_splits)

lemma set_map_set: "x \<in> set (map_set k v m) \<Longrightarrow> x = (k, v) \<or> x \<in> set m"
  by (induction m) (auto split: if_splits)


lemma find_Some_holds: "find P xs = Some x \<Longrightarrow> P x \<and> x \<in> set xs"
  by (induction xs) (auto split: if_splits)

subsection \<open>Command results\<close>

lemma settled_map_set:
  "settled st \<Longrightarrow> cr_status res = pending \<or> cr_status res = acked \<Longrightarrow>
   settled (st\<lparr>commandHistory := map_set cid res (commandHistory st)\<rparr>)"
  by (auto simp: settled_def dest: set_map_set)

lemma commandHistory_registerNode [simp]:
  "commandHistory (fst (registerNode now node st)) = commandHistory st"
  by (simp add: registerNode_def Let_def)

lemma commandHistory_markNodeOffline [simp]:
  "commandHistory (fst (markNodeOffline now nodeId st)) = commandHistory st"
  by (simp add: markNodeOffline_def Let_def split: option.splits)

lemma commandHistory_heartbeat_visit [simp]:
  "commandHistory (fst (heartbeat_visit now ks st)) = commandHistory st"
  by (induction ks arbitrary: st) (simp_all add: split_beta split: option.splits)

lemma commandHistory_initialize [simp]:
  "commandHistory (fst (initialize now st)) = commandHistory st"
  by (simp add: initialize_def split_beta)

lemma commandHistory_telemetryTick [simp]:
  "commandHistory (fst (telemetryTick now nodeId topic data st)) = commandHistory st"
  by (simp add: telemetryTick_def Let_def)

lemma commandHistory_subscribe [simp]:
  "commandHistory (fst (snd (subscribeTelemetry nodeId topic st))) = commandHistory st"
  by (simp add: subscribeTelemetry_def split: option.splits)

lemma commandHistory_step:
  assumes "\<forall>now cid r cmd. a \<noteq> PublishCommand now cid r cmd" "\<forall>cid. a \<noteq> AckTimer cid"
  shows "commandHistory (fst (bridge_step a st)) = commandHistory st"
  using assms
  by (cases a) (simp_all add: bridge_step_def heartbeatTick_def shutdown_def split_beta)

lemma settled_step: "settled st \<Longrightarrow> settled (fst (bridge_step a st))"
proof -
  assume s: "settled st"
  consider (pub) now cid r cmd where "a = PublishCommand now cid r cmd"
    | (ack) cid where "a = AckTimer cid"
    | (other) "\<forall>now cid r cmd. a \<noteq> PublishCommand now cid r cmd" "\<forall>cid. a \<noteq> AckTimer cid"
    by (cases a) auto
  then show ?thesis
  proof cases
    case pub
    show ?thesis
      using settled_map_set[OF s, of "\<lparr>commandId = cid, cr_status = pending, cr_nodeId = c_nodeId cmd,
                              cr_timestamp = now, cr_error = None\<rparr>" cid] s
      by (auto simp: pub bridge_step_def publishCommand_def Let_def settled_def
          split: option.splits)
  next
    case ack
    have "settled (st\<lparr>ackTimers := ts\<rparr>)" for ts
      using s by (simp add: settled_def)
    then show ?thesis
      using settled_map_set[of "st\<lparr>ackTimers := ts\<rparr>" for ts] s
      by (auto simp: ack bridge_step_def ackTimer_def Let_def split: option.splits)
  next
    case other
    then have "commandHistory (fst (bridge_step a st)) = commandHistory st"
      by (rule commandHistory_step)
    with s show ?thesis by (simp add: settled_def)
  qed
qed

lemma settled_run: "settled st \<Longrightarrow> settled (bridge_run as st)"
  by (induction as arbitrary: st) (simp_all add: settled_step)

lemma settled_init: "settled bridge_init"
  by (simp add: settled_def bridge_init_def)

lemma map_get_step_other:
  assumes "a \<noteq> AckTimer cid" "\<forall>t x c. a \<noteq> PublishCommand t cid x c"
  shows "map_get cid (commandHistory (fst (bridge_step a st))) = map_get cid (commandHistory st)"
proof -
  consider (pub) now cid' r cmd where "a = PublishCommand now cid' r cmd" "cid' \<noteq> cid"
    | (ack) cid' where "a = AckTimer cid'" "cid' \<noteq> cid"
    | (other) "\<forall>now cid r cmd. a \<noteq> PublishCommand now cid r cmd" "\<forall>cid. a \<noteq> AckTimer cid"
    using assms by (cases a) auto
  then show ?thesis
  proof cases
    case pub
    then show ?thesis
      by (auto simp: bridge_step_def publishCommand_def Let_def map_get_set_other split: option.splits)
  next
    case ack
    then show ?thesis
      by (auto simp: bridge_step_def ackTimer_def Let_def map_get_set_other split: option.splits)
  next
    case other
    then show ?thesis by (simp add: commandHistory_step)
  qed
qed

lemma ackTimers_step_other:
  assumes "a \<noteq> AckTimer cid" "(cid, d) \<in> set (ackTimers st)"
  shows "(cid, d) \<in> set (ackTimers (fst (bridge_step a st)))"
proof (cases a)
  case (AckTimer cid')
  with assms have ne: "cid' \<noteq> cid" by simp
  show ?thesis
  proof (cases "find (\<lambda>(c, d). c = cid') (ackTimers st)")
    case None
    with AckTimer assms show ?thesis by (simp add: bridge_step_def ackTimer_def)
  next
    case (Some tm)
    then have "fst tm = cid'" by (auto dest: find_Some_holds)
    with ne have "tm \<noteq> (cid, d)" by auto
    with assms(2) have "(cid, d) \<in> set (remove1 tm (ackTimers st))" by simp
    with AckTimer Some show ?thesis
      by (auto simp: bridge_step_def ackTimer_def Let_def split: option.splits)
  qed
next
  case (PublishCommand now cid' r cmd)
  with assms show ?thesis
    by (auto simp: bridge_step_def publishCommand_def Let_def split: option.splits)
next
  case (SubscribeTelemetry n t)
  with assms show ?thesis
    by (auto simp: bridge_step_def subscribeTelemetry_def split: option.splits)
next
  case (MarkNodeOffline now n)
  with assms show ?thesis
    by (auto simp: bridge_step_def markNodeOffline_def Let_def split: option.splits)
next
  case (HeartbeatTick now)
  have "ackTimers (fst (heartbeat_visit now ks s)) = ackTimers s" for ks s
    by (induction ks arbitrary: s)
      (simp_all add: split_beta markNodeOffline_def Let_def split: option.splits)
  with HeartbeatTick assms show ?thesis
    by (simp add: bridge_step_def heartbeatTick_def)
qed (use assms in \<open>simp_all add: bridge_step_def initialize_def registerNode_def telemetryTick_def
       shutdown_def Let_def split_beta\<close>)

lemma pending_until_fired:
  assumes "\<forall>a\<in>set as. a \<noteq> AckTimer cid \<and> (\<forall>t x c. a \<noteq> PublishCommand t cid x c)"
    and "(cid, d) \<in> set (ackTimers st)"
  shows "map_get cid (commandHistory (bridge_run as st)) = map_get cid (commandHistory st)
       \<and> (cid, d) \<in> set (ackTimers (bridge_run as st))"
  using assms
proof (induction as arbitrary: st)
  case Nil
  then show ?case by simp
next
  case (Cons a as)
  then have a: "a \<noteq> AckTimer cid" "\<forall>t x c. a \<noteq> PublishCommand t cid x c" by simp_all
  have "(cid, d) \<in> set (ackTimers (fst (bridge_step a st)))"
    using a(1) Cons.prems(2) by (rule ackTimers_step_other)
  with Cons.IH[of "fst (bridge_step a st)"] Cons.prems(1)
  show ?case by (simp add: map_get_step_other[OF a])
qed

lemma ackTimer_fires:
  assumes "(cid, d) \<in> set (ackTimers st)" "map_get cid (commandHistory st) = Some res"
    "cr_status res = pending"
  shows "map_get cid (commandHistory (fst (ackTimer cid st))) = Some (res\<lparr>cr_status := acked\<rparr>)"
    and "snd (ackTimer cid st) = [Emit_command_acked (res\<lparr>cr_status := acked\<rparr>)]"
proof -
  have "find (\<lambda>(c, d). c = cid) (ackTimers st) \<noteq> None"
    using assms(1) by (auto simp: find_None_iff)
  then obtain tm where "find (\<lambda>(c, d). c = cid) (ackTimers st) = Some tm" by blast
  with assms(2,3) show "map_get cid (commandHistory (fst (ackTimer cid st))) = Some (res\<lparr>cr_status := acked\<rparr>)"
    and "snd (ackTimer cid st) = [Emit_command_acked (res\<lparr>cr_status := acked\<rparr>)]"
    by (simp_all add: ackTimer_def Let_def map_get_set_same)
qed

subsection \<open>Telemetry rounds and the heartbeat monitor\<close>






lemma initialized_nodes:
  "nodes (fst (initialize 0 bridge_init)) =
     [(''/fleet/robots/robot_01'',
       \<lparr>node_name = ''robot_01'', node_namespace = ''/fleet/robots'', node_type = robot,
               location = Some (40.7128, -74.006, Some 0),
               topics_subscribe = [''/tf'', ''/sensor_data/imu'', ''/sensor_data/lidar''],
               topics_publish = [''/cmd/velocity'', ''/cmd/mission''],
               lastSeen = 0, health = ok\<rparr>),
      (gateway_id,
       \<lparr>node_name = ''sensor_gateway_01'', node_namespace = ''/field/sensors'',
               node_type = gateway, location = Some (40.7129, -74.005, None),
               topics_subscribe = [''/sensor_data/pressure'', ''/sensor_data/flow''],
               topics_publish = [''/alert/pressure_anomaly'', ''/alert/flow_anomaly''],
               lastSeen = 0, health = ok\<rparr>)]"
  "heartbeatTimer (fst (initialize 0 bridge_init))"
  by (simp_all add: initialize_def registerNode_def bridge_init_def gateway_id_def split_beta Let_def)



section \<open>Claims on the bridge\<close>

text \<open>
  Claim C10. For a registered node, \<open>markNodeOffline\<close> leaves that node with health
  \<open>offline\<close> and \<open>lastSeen\<close> set to the current time and with every other field as it
  was; every other node, the order of the nodes and every other field of the bridge are
  unchanged; \<open>node:offline\<close> and \<open>ros2.node.offline\<close> are emitted; and the monitor's staleness
  test fails on the node for every time up to 60 s later. For an unknown node id nothing
  changes and nothing is emitted.
\<close>

theorem mark_node_offline_frame:
  "(\<forall>node. map_get nodeId (nodes st) = Some node \<longrightarrow>
       map_get nodeId (nodes (fst (markNodeOffline now nodeId st)))
         = Some (node\<lparr>health := offline, lastSeen := now\<rparr>)
     \<and> (\<forall>k. k \<noteq> nodeId \<longrightarrow>
            map_get k (nodes (fst (markNodeOffline now nodeId st))) = map_get k (nodes st))
     \<and> map fst (nodes (fst (markNodeOffline now nodeId st))) = map fst (nodes st)
     \<and> fst (markNodeOffline now nodeId st)
         = st\<lparr>nodes := nodes (fst (markNodeOffline now nodeId st))\<rparr>
     \<and> snd (markNodeOffline now nodeId st)
         = [Emit_node_offline nodeId (node\<lparr>health := offline, lastSeen := now\<rparr>),
            Bus_node_offline nodeId now]
     \<and> (\<forall>t. t \<le> now + 60000 \<longrightarrow> \<not> stale t (node\<lparr>health := offline, lastSeen := now\<rparr>)))
   \<and> (map_get nodeId (nodes st) = None \<longrightarrow> markNodeOffline now nodeId st = (st, []))"
  by (auto simp: markNodeOffline_def Let_def map_get_set_same map_get_set_other map_set_keys stale_def)

text \<open>
  The theorem at work on the initialised bridge: marking the sensor gateway offline at
  90 s, and marking a node that does not exist.
\<close>

theorem mark_node_offline_frame_witness:
  "map_get gateway_id (nodes (fst (initialize 0 bridge_init))) \<noteq> None
   \<and> map_option health (map_get gateway_id
         (nodes (fst (markNodeOffline 90000 gateway_id (fst (initialize 0 bridge_init))))))
       = Some offline
   \<and> map_option lastSeen (map_get gateway_id
         (nodes (fst (markNodeOffline 90000 gateway_id (fst (initialize 0 bridge_init))))))
       = Some 90000
   \<and> map_get ''/fleet/robots/robot_01''
         (nodes (fst (markNodeOffline 90000 gateway_id (fst (initialize 0 bridge_init)))))
       = map_get ''/fleet/robots/robot_01'' (nodes (fst (initialize 0 bridge_init)))
   \<and> map_get ''/field/sensors/none'' (nodes (fst (initialize 0 bridge_init))) = None
   \<and> markNodeOffline 90000 ''/field/sensors/none'' (fst (initialize 0 bridge_init))
       = (fst (initialize 0 bridge_init), [])"
proof -
  let ?st = "fst (initialize 0 bridge_init)"
  obtain node where known: "map_get gateway_id (nodes ?st) = Some node"
    by (simp add: initialized_nodes map_get_def gateway_id_def)
  have other: "''/fleet/robots/robot_01'' \<noteq> gateway_id"
    by (simp add: gateway_id_def)
  have unknown: "map_get ''/field/sensors/none'' (nodes ?st) = None"
    by (simp add: initialized_nodes map_get_def gateway_id_def)
  from mark_node_offline_frame[of gateway_id ?st 90000] known other
  have "map_get gateway_id (nodes (fst (markNodeOffline 90000 gateway_id ?st)))
          = Some (node\<lparr>health := offline, lastSeen := 90000\<rparr>)"
    and "map_get ''/fleet/robots/robot_01'' (nodes (fst (markNodeOffline 90000 gateway_id ?st)))
          = map_get ''/fleet/robots/robot_01'' (nodes ?st)"
    by blast+
  moreover from mark_node_offline_frame[of "''/field/sensors/none''" ?st 90000] unknown
  have "markNodeOffline 90000 ''/field/sensors/none'' ?st = (?st, [])"
    by blast
  ultimately show ?thesis using known unknown by simp
qed

text \<open>
  Claim C7. For a known node and a topic among its declared publish topics,
  \<open>publishCommand\<close> returns and records a result with status \<open>pending\<close> and starts a timer
  whose delay lies between 500 and 2500 ms (for a random number in [0, 1)). Whatever else
  happens in between (save another command with the very same id), the result
  stays as it is until that timer goes off, and then becomes \<open>acked\<close>, with
  \<open>command:acked\<close> emitted. In no run of the bridge from its initial state does a recorded
  result have status \<open>failed\<close> or \<open>timeout\<close>.
\<close>

theorem command_lifecycle:
  assumes known: "map_get (c_nodeId cmd) (nodes st) = Some node"
    and declared: "c_topic cmd \<in> set (topics_publish node)"
    and random: "0 \<le> r" "r < 1"
  shows "(\<exists>res st'.
            publishCommand now cid r cmd st = (Inr res, st', [Emit_command_sent cid cmd])
          \<and> commandId res = cid \<and> cr_status res = pending
          \<and> getCommandStatus cid st' = Some res
          \<and> ackTimers st' = ackTimers st @ [(cid, ack_delay r)]
          \<and> 500 \<le> ack_delay r \<and> ack_delay r < 2500
          \<and> (\<forall>as. (\<forall>a\<in>set as. a \<noteq> AckTimer cid \<and> (\<forall>t x c. a \<noteq> PublishCommand t cid x c)) \<longrightarrow>
                 getCommandStatus cid (bridge_run as st') = Some res
               \<and> getCommandStatus cid (fst (ackTimer cid (bridge_run as st')))
                   = Some (res\<lparr>cr_status := acked\<rparr>)
               \<and> snd (ackTimer cid (bridge_run as st'))
                   = [Emit_command_acked (res\<lparr>cr_status := acked\<rparr>)]))
       \<and> (\<forall>as c res. (c, res) \<in> set (commandHistory (bridge_run as bridge_init)) \<longrightarrow>
              cr_status res \<noteq> failed \<and> cr_status res \<noteq> timeout)"
proof (intro conjI allI impI)
  let ?res = "\<lparr>commandId = cid, cr_status = pending, cr_nodeId = c_nodeId cmd,
               cr_timestamp = now, cr_error = None\<rparr>"
  let ?st' = "st\<lparr>commandHistory := map_set cid ?res (commandHistory st),
                 ackTimers := ackTimers st @ [(cid, ack_delay r)]\<rparr>"
  have pub: "publishCommand now cid r cmd st = (Inr ?res, ?st', [Emit_command_sent cid cmd])"
    using known declared by (simp add: publishCommand_def Let_def)
  have got: "getCommandStatus cid ?st' = Some ?res"
    by (simp add: getCommandStatus_def map_get_set_same)
  have delay: "500 \<le> ack_delay r" "ack_delay r < 2500"
    using random by (simp_all add: ack_delay_def)
  have later: "getCommandStatus cid (bridge_run as ?st') = Some ?res
               \<and> getCommandStatus cid (fst (ackTimer cid (bridge_run as ?st')))
                   = Some (?res\<lparr>cr_status := acked\<rparr>)
               \<and> snd (ackTimer cid (bridge_run as ?st'))
                   = [Emit_command_acked (?res\<lparr>cr_status := acked\<rparr>)]"
    if quiet: "\<forall>a\<in>set as. a \<noteq> AckTimer cid \<and> (\<forall>t x c. a \<noteq> PublishCommand t cid x c)" for as
  proof -
    have tm: "(cid, ack_delay r) \<in> set (ackTimers ?st')" by simp
    from pending_until_fired[OF quiet tm]
    have keep: "map_get cid (commandHistory (bridge_run as ?st')) = Some ?res"
      and tm': "(cid, ack_delay r) \<in> set (ackTimers (bridge_run as ?st'))"
      by (simp_all add: map_get_set_same)
    from ackTimer_fires[OF tm' keep] keep show ?thesis
      by (simp add: getCommandStatus_def)
  qed
  show "\<exists>res st'.
            publishCommand now cid r cmd st = (Inr res, st', [Emit_command_sent cid cmd])
          \<and> commandId res = cid \<and> cr_status res = pending
          \<and> getCommandStatus cid st' = Some res
          \<and> ackTimers st' = ackTimers st @ [(cid, ack_delay r)]
          \<and> 500 \<le> ack_delay r \<and> ack_delay r < 2500
          \<and> (\<forall>as. (\<forall>a\<in>set as. a \<noteq> AckTimer cid \<and> (\<forall>t x c. a \<noteq> PublishCommand t cid x c)) \<longrightarrow>
                 getCommandStatus cid (bridge_run as st') = Some res
               \<and> getCommandStatus cid (fst (ackTimer cid (bridge_run as st')))
                   = Some (res\<lparr>cr_status := acked\<rparr>)
               \<and> snd (ackTimer cid (bridge_run as st'))
                   = [Emit_command_acked (res\<lparr>cr_status := acked\<rparr>)])"
    apply (rule exI[of _ ?res], rule exI[of _ ?st'])
    using pub got delay later by simp
next
  fix as c res
  assume "(c, res) \<in> set (commandHistory (bridge_run as bridge_init))"
  moreover have "settled (bridge_run as bridge_init)"
    using settled_init by (rule settled_run)
  ultimately have "cr_status res = pending \<or> cr_status res = acked"
    by (auto simp: settled_def)
  then show "cr_status res \<noteq> failed" and "cr_status res \<noteq> timeout" by auto
qed

text \<open>
  The theorem at work: a stop command to the robot at 1 s with random number 1/4 (a delay
  of 1000 ms), a heartbeat round in between, then the timer.
\<close>

theorem command_lifecycle_witness:
  "map_get (c_nodeId stop_robot) (nodes (fst (initialize 0 bridge_init))) \<noteq> None
   \<and> (0::real) \<le> 1 / 4 \<and> (1::real) / 4 < 1
   \<and> map_option cr_status (getCommandStatus ''cmd_1000_k3j9x2a1b''
         (fst (snd (publishCommand 1000 ''cmd_1000_k3j9x2a1b'' (1 / 4) stop_robot
                      (fst (initialize 0 bridge_init))))))
       = Some pending
   \<and> 500 \<le> ack_delay (1 / 4) \<and> ack_delay (1 / 4) < 2500
   \<and> map_option cr_status (getCommandStatus ''cmd_1000_k3j9x2a1b''
         (fst (ackTimer ''cmd_1000_k3j9x2a1b''
            (bridge_run [HeartbeatTick 30000]
               (fst (snd (publishCommand 1000 ''cmd_1000_k3j9x2a1b'' (1 / 4) stop_robot
                            (fst (initialize 0 bridge_init)))))))))
       = Some acked"
proof -
  let ?st = "fst (initialize 0 bridge_init)"
  let ?cid = "''cmd_1000_k3j9x2a1b''"
  obtain node where known: "map_get (c_nodeId stop_robot) (nodes ?st) = Some node"
    and declared: "c_topic stop_robot \<in> set (topics_publish node)"
    by (simp add: initialized_nodes map_get_def gateway_id_def stop_robot_def)
  have r: "(0::real) \<le> 1 / 4" "(1::real) / 4 < 1" by simp_all
  have quiet: "\<forall>a\<in>set [HeartbeatTick 30000].
      a \<noteq> AckTimer ?cid \<and> (\<forall>t x c. a \<noteq> PublishCommand t ?cid x c)"
    by simp
  from command_lifecycle[OF known declared r, of 1000 ?cid]
  obtain res st' where
    pub: "publishCommand 1000 ?cid (1 / 4) stop_robot ?st = (Inr res, st', [Emit_command_sent ?cid stop_robot])"
    and pend: "cr_status res = pending" "getCommandStatus ?cid st' = Some res"
    and delay: "500 \<le> ack_delay (1 / 4)" "ack_delay (1 / 4) < 2500"
    and later: "\<forall>as. (\<forall>a\<in>set as. a \<noteq> AckTimer ?cid \<and> (\<forall>t x c. a \<noteq> PublishCommand t ?cid x c)) \<longrightarrow>
                 getCommandStatus ?cid (bridge_run as st') = Some res
               \<and> getCommandStatus ?cid (fst (ackTimer ?cid (bridge_run as st')))
                   = Some (res\<lparr>cr_status := acked\<rparr>)
               \<and> snd (ackTimer ?cid (bridge_run as st'))
                   = [Emit_command_acked (res\<lparr>cr_status := acked\<rparr>)]"
    by blast
  from later quiet
  have "getCommandStatus ?cid (fst (ackTimer ?cid (bridge_run [HeartbeatTick 30000] st')))
          = Some (res\<lparr>cr_status := acked\<rparr>)"
    by blast
  with pub pend delay known r show ?thesis by simp
qed




section \<open>Properties of the incident module, the missions and the bus\<close>

lemma find_filter: "find Q (filter P xs) = find (\<lambda>x. P x \<and> Q x) xs"
  by (induction xs) auto

lemma correlate_Some:
  assumes "correlateAlerts now event incs = Some i"
  shows "located event \<and> i < length incs \<and> open_recent now (snd (incs ! i))
         \<and> detectionIds (snd (incs ! i)) \<noteq> []"
proof -
  let ?P = "\<lambda>(i, inc). inc_status inc \<noteq> resolved \<and> startedAt inc > now - 2 * 60 * 1000"
  let ?Q = "\<lambda>(i, incident). length (detectionIds incident) > 0"
  from assms have loc: "located event"
    by (auto simp: correlateAlerts_def located_def Let_def split: if_splits)
  with assms obtain p where
    f: "find ?Q (filter ?P (enumerate 0 (map_values incs))) = Some p" and p: "fst p = i"
    by (auto simp: correlateAlerts_def located_def Let_def)
  from f have "find (\<lambda>x. ?P x \<and> ?Q x) (enumerate 0 (map_values incs)) = Some p"
    by (simp add: find_filter)
  then have "?P p \<and> ?Q p" and "p \<in> set (enumerate 0 (map_values incs))"
    by (auto dest: find_Some_holds)
  then have "i < length incs" "snd p = map_values incs ! i" "?P p" "?Q p"
    using p by (auto simp: in_set_enumerate_eq map_values_def)
  then show ?thesis
    using loc p by (cases p) (auto simp: open_recent_def map_values_def)
qed

lemma correlate_None:
  assumes "\<not> located event \<or> (\<forall>inc\<in>set (map_values incs). \<not> open_recent now inc)"
  shows "correlateAlerts now event incs = None"
proof (cases "located event")
  case False
  then show ?thesis by (auto simp: correlateAlerts_def located_def Let_def)
next
  case True
  with assms have none: "\<forall>inc\<in>set (map_values incs). \<not> open_recent now inc" by simp
  have "filter (\<lambda>(i, inc). inc_status inc \<noteq> resolved \<and> startedAt inc > now - 2 * 60 * 1000)
          (enumerate 0 (map_values incs)) = []"
    using none by (auto simp: filter_empty_conv in_set_enumerate_eq open_recent_def)
  then show ?thesis by (simp add: correlateAlerts_def Let_def)
qed

lemma after_valve_incidents:
  "incidents after_valve =
     [(''1000-ka'',
       \<lparr>inc_id = ''1000-ka'', inc_title = ''High temperature: 85.0C'', inc_severity = ''warning'',
        inc_status = active, startedAt = 1000, resolvedAt = None,
        affectedModules = [''valve-ops''], detectionIds = [], alertIds = [''1000-kb''],
        rootCause = None, resolution = None,
        timeline = [\<lparr>tl_timestamp = 1000, tl_type = alert, tl_title = ''Incident Started'',
                     tl_description = ''High temperature: 85.0C'',
                     tl_metadata = Some (valve_alert 1000)\<rparr>]\<rparr>)]"
  by (simp add: after_valve_def handleAlert_def correlateAlerts_def new_incident_def
      createTimelineEvent_def inc_env_def incidents_init_def map_values_def
      truthy_num_def truthy_str_def or_str_def Let_def)
    (simp add: valve_alert_def truthy_str_def)

lemma after_leak_incidents:
  "map (\<lambda>(k, i). (k, inc_status i, startedAt i, detectionIds i, alertIds i)) (incidents after_leak) =
     [(''1000-ka'', active, 1000, [], [''1000-kb''])]"
  by (simp add: after_leak_def handleAlert_def correlateAlerts_def new_incident_def
      createTimelineEvent_def inc_env_def incidents_init_def map_values_def
      truthy_num_def truthy_str_def or_str_def Let_def)
    (simp add: leak_alert_def truthy_str_def)

lemma one_mission_eq:
  "one_mission =
     \<lparr>objects = [\<lparr>m_id = ''0-q'', m_title = ''Leak walkdown'', m_type = replay, m_status = draft,
                   createdAt = 0, m_startedAt = None, completedAt = None, m_timeline = [],
                   playbackSpeed = 1\<rparr>],
      missions = [(''0-q'', 0)], activeMission = None\<rparr>"
  by (simp add: one_mission_def createMission_def missions_init_def or_str_def truthy_str_def
      nullish_def Let_def)

lemma emit_all:
  "\<forall>l\<in>set ls. \<forall>s. snd (l ev s) = None \<Longrightarrow>
   emit ls ev s = (foldl (\<lambda>s l. fst (l ev s)) s ls, length ls, None)"
proof (induction ls arbitrary: s)
  case Nil
  then show ?case by simp
next
  case (Cons l ls)
  then have "snd (l ev s) = None" by simp
  then obtain s' where "l ev s = (s', None)" by (cases "l ev s") auto
  with Cons show ?case by simp
qed

lemma emit_abort:
  "emit pre ev s = (s1, length pre, None) \<Longrightarrow> l ev s1 = (s2, Some x) \<Longrightarrow>
   emit (pre @ l # post) ev s = (s2, Suc (length pre), Some x)"
proof (induction pre arbitrary: s)
  case Nil
  then show ?case by simp
next
  case (Cons p pre)
  obtain s' r where p: "p ev s = (s', r)" by (cases "p ev s")
  show ?case
  proof (cases r)
    case None
    with Cons.prems(1) p have "emit pre ev s' = (s1, length pre, None)"
      by (auto split: prod.splits)
    from Cons.IH[OF this Cons.prems(2)] p None show ?thesis by simp
  next
    case (Some y)
    with Cons.prems(1) p show ?thesis by simp
  qed
qed

section \<open>Claims on incidents, missions and the bus\<close>

text \<open>
  Claim C1, as the spec states it, appends every alert that arrives while a non-resolved
  incident less than two minutes old exists to the first such incident, so that two alerts
  within two minutes give one incident with both alert ids. The handler does not: two leak
  alerts ten seconds apart, and likewise two valve alerts, leave two incidents with one
  alert id each, although the first incident is open and recent when the second alert
  arrives.
\<close>

theorem two_alerts_two_incidents_counterexample:
  "open_recent 11000 (snd (hd (incidents after_leak)))
   \<and> map (alertIds \<circ> snd) (incidents after_two_leaks) = [[''1000-kb''], [''11000-mb'']]
   \<and> open_recent 11000 (snd (hd (incidents after_valve)))
   \<and> map (alertIds \<circ> snd) (incidents after_two_valves) = [[''1000-kb''], [''11000-mb'']]"
proof -
  obtain k i where l: "incidents after_leak = [(k, i)]" and
    i: "inc_status i = active" "startedAt i = 1000" "detectionIds i = []" "alertIds i = [''1000-kb'']"
    using after_leak_incidents by (cases "incidents after_leak") auto
  have 1: "open_recent 11000 (snd (hd (incidents after_leak)))"
    by (simp add: l i open_recent_def)
  have 2: "map (alertIds \<circ> snd) (incidents after_two_leaks) = [[''1000-kb''], [''11000-mb'']]"
    using after_leak_incidents
    by (simp add: after_two_leaks_def handleAlert_def correlateAlerts_def l i new_incident_def
        inc_env_def map_values_def enumerate_eq_zip leak_alert_def truthy_num_def truthy_str_def or_str_def Let_def)
  have 3: "open_recent 11000 (snd (hd (incidents after_valve)))"
    by (simp add: after_valve_incidents open_recent_def)
  have 4: "map (alertIds \<circ> snd) (incidents after_two_valves) = [[''1000-kb''], [''11000-mb'']]"
    by (simp add: after_two_valves_def after_valve_incidents handleAlert_def correlateAlerts_def
        new_incident_def inc_env_def valve_alert_def truthy_num_def truthy_str_def or_str_def Let_def)
  from 1 2 3 4 show ?thesis by simp
qed

text \<open>
  Claim C1, amended. For every \<open>alert.created\<close> event the handler queues the alert and then
  does one of two things. Either it creates a new incident seeded with this alert (status
  \<open>active\<close>, started now, the alert's id as its only alert reference, one timeline entry of
  type \<open>alert\<close>), stores it under its new id after the existing incidents and publishes
  \<open>incident.created\<close>; or it appends the alert's id and a timeline entry to one non-resolved
  incident started within the last two minutes, leaves all else as it is and publishes
  \<open>incident.updated\<close>, which it does only for an alert that carries latitude and longitude.
  An alert without (truthy) latitude and longitude, and any alert that arrives when no
  non-resolved incident started within the last two minutes, always creates a new
  incident.
\<close>

theorem alert_correlation:
  "(\<not> located event \<or> (\<forall>inc\<in>set (map_values (incidents st)). \<not> open_recent (inc_now env) inc) \<longrightarrow>
      handleAlert env (AlertCreated event) st =
        (st\<lparr>alertQueue := alertQueue st @ [event],
            incidents := map_set (inc_uuid env 0) (new_incident env event) (incidents st)\<rparr>,
         [IncidentCreated (inc_uuid env 0) (or_str (ev_severity event) ''warning'') (inc_now env)])
    \<and> (map_get (inc_uuid env 0) (incidents st) = None \<longrightarrow>
         map_set (inc_uuid env 0) (new_incident env event) (incidents st)
           = incidents st @ [(inc_uuid env 0, new_incident env event)]))
   \<and> inc_id (new_incident env event) = inc_uuid env 0
   \<and> alertIds (new_incident env event) = [or_str (ev_id event) (inc_uuid env 1)]
   \<and> inc_status (new_incident env event) = active
   \<and> startedAt (new_incident env event) = inc_now env
   \<and> map tl_type (timeline (new_incident env event)) = [alert]
   \<and> (handleAlert env (AlertCreated event) st =
        (st\<lparr>alertQueue := alertQueue st @ [event],
            incidents := map_set (inc_uuid env 0) (new_incident env event) (incidents st)\<rparr>,
         [IncidentCreated (inc_uuid env 0) (or_str (ev_severity event) ''warning'') (inc_now env)])
      \<or> (\<exists>i key inc.
            i < length (incidents st) \<and> incidents st ! i = (key, inc)
          \<and> located event \<and> open_recent (inc_now env) inc
          \<and> handleAlert env (AlertCreated event) st =
              (st\<lparr>alertQueue := alertQueue st @ [event],
                  incidents := (incidents st)
                    [i := (key, inc\<lparr>alertIds := alertIds inc @ [or_str (ev_id event) (inc_uuid env 0)],
                                    timeline := timeline inc @
                                      [createTimelineEvent (inc_now env) alert ''New alert''
                                         (alert_description event) (Some event)]\<rparr>)]\<rparr>,
               [IncidentUpdated (inc_id inc) (inc_now env)])))"
proof -
  let ?created = "(st\<lparr>alertQueue := alertQueue st @ [event],
            incidents := map_set (inc_uuid env 0) (new_incident env event) (incidents st)\<rparr>,
         [IncidentCreated (inc_uuid env 0) (or_str (ev_severity event) ''warning'') (inc_now env)])"
  have none: "handleAlert env (AlertCreated event) st = ?created"
    if "correlateAlerts (inc_now env) event (incidents st) = None"
    using that by (simp add: handleAlert_def Let_def new_incident_def)
  have some: "\<exists>i key inc.
            i < length (incidents st) \<and> incidents st ! i = (key, inc)
          \<and> located event \<and> open_recent (inc_now env) inc
          \<and> handleAlert env (AlertCreated event) st =
              (st\<lparr>alertQueue := alertQueue st @ [event],
                  incidents := (incidents st)
                    [i := (key, inc\<lparr>alertIds := alertIds inc @ [or_str (ev_id event) (inc_uuid env 0)],
                                    timeline := timeline inc @
                                      [createTimelineEvent (inc_now env) alert ''New alert''
                                         (alert_description event) (Some event)]\<rparr>)]\<rparr>,
               [IncidentUpdated (inc_id inc) (inc_now env)])"
    if c: "correlateAlerts (inc_now env) event (incidents st) = Some i" for i
  proof -
    obtain key inc where kv: "incidents st ! i = (key, inc)" by (cases "incidents st ! i")
    from correlate_Some[OF c] kv have "i < length (incidents st)" "located event"
      "open_recent (inc_now env) inc" by simp_all
    moreover from c kv have "handleAlert env (AlertCreated event) st =
              (st\<lparr>alertQueue := alertQueue st @ [event],
                  incidents := (incidents st)
                    [i := (key, inc\<lparr>alertIds := alertIds inc @ [or_str (ev_id event) (inc_uuid env 0)],
                                    timeline := timeline inc @
                                      [createTimelineEvent (inc_now env) alert ''New alert''
                                         (alert_description event) (Some event)]\<rparr>)]\<rparr>,
               [IncidentUpdated (inc_id inc) (inc_now env)])"
      by (simp add: handleAlert_def Let_def)
    ultimately show ?thesis using kv by blast
  qed
  have first: "handleAlert env (AlertCreated event) st = ?created"
    if "\<not> located event \<or> (\<forall>inc\<in>set (map_values (incidents st)). \<not> open_recent (inc_now env) inc)"
    using that by (intro none correlate_None)
  have either: "handleAlert env (AlertCreated event) st = ?created
      \<or> (\<exists>i key inc.
            i < length (incidents st) \<and> incidents st ! i = (key, inc)
          \<and> located event \<and> open_recent (inc_now env) inc
          \<and> handleAlert env (AlertCreated event) st =
              (st\<lparr>alertQueue := alertQueue st @ [event],
                  incidents := (incidents st)
                    [i := (key, inc\<lparr>alertIds := alertIds inc @ [or_str (ev_id event) (inc_uuid env 0)],
                                    timeline := timeline inc @
                                      [createTimelineEvent (inc_now env) alert ''New alert''
                                         (alert_description event) (Some event)]\<rparr>)]\<rparr>,
               [IncidentUpdated (inc_id inc) (inc_now env)]))"
    using none some by (cases "correlateAlerts (inc_now env) event (incidents st)") blast+
  have fields: "inc_id (new_incident env event) = inc_uuid env 0"
    "alertIds (new_incident env event) = [or_str (ev_id event) (inc_uuid env 1)]"
    "inc_status (new_incident env event) = active"
    "startedAt (new_incident env event) = inc_now env"
    "map tl_type (timeline (new_incident env event)) = [alert]"
    by (simp_all add: new_incident_def createTimelineEvent_def)
  show ?thesis
    using first either fields map_set_fresh[of "inc_uuid env 0" "incidents st" "new_incident env event"]
    by blast
qed

text \<open>
  The theorem at work: a second valve alert, ten seconds after the first, has no
  coordinates and opens a second incident.
\<close>

theorem alert_correlation_witness:
  "\<not> located (valve_alert 11000)
   \<and> map_get (inc_uuid (inc_env 11000 ''11000-m'') 0) (incidents after_valve) = None
   \<and> snd (handleAlert (inc_env 11000 ''11000-m'') (AlertCreated (valve_alert 11000)) after_valve)
       = [IncidentCreated ''11000-ma'' ''warning'' 11000]
   \<and> map fst (incidents (fst (handleAlert (inc_env 11000 ''11000-m'')
                                  (AlertCreated (valve_alert 11000)) after_valve)))
       = [''1000-ka'', ''11000-ma'']"
proof -
  let ?env = "inc_env 11000 ''11000-m''"
  have nl: "\<not> located (valve_alert 11000)"
    by (simp add: located_def valve_alert_def truthy_num_def)
  have fresh: "map_get (inc_uuid ?env 0) (incidents after_valve) = None"
    by (simp add: after_valve_incidents map_get_def inc_env_def)
  from alert_correlation[of "valve_alert 11000" after_valve ?env] nl fresh
  have "handleAlert ?env (AlertCreated (valve_alert 11000)) after_valve =
        (after_valve\<lparr>alertQueue := alertQueue after_valve @ [valve_alert 11000],
            incidents := incidents after_valve
               @ [(inc_uuid ?env 0, new_incident ?env (valve_alert 11000))]\<rparr>,
         [IncidentCreated (inc_uuid ?env 0) (or_str (ev_severity (valve_alert 11000)) ''warning'')
            (inc_now ?env)])"
    by simp
  then show ?thesis
    using nl fresh
    by (simp add: after_valve_incidents inc_env_def valve_alert_def or_str_def truthy_str_def)
qed

text \<open>
  Claim C6 says that reading a timeline leaves the stored timeline in insertion order.
  \<open>getTimeline\<close> sorts the stored array itself: for the incident whose timeline was
  written as "Incident Started" (at 1 s) and then "Root Cause Identified" (at 2 s), the
  stored timeline after one read is in the opposite order.
\<close>

theorem timeline_read_reorders_storage:
  "map_option (map tl_title \<circ> timeline) (map_get ''1000-ka'' (incidents diagnosed))
     = Some [''Incident Started'', ''Root Cause Identified'']
   \<and> map_option (map tl_title \<circ> timeline)
        (map_get ''1000-ka'' (incidents (snd (getTimeline ''1000-ka'' diagnosed))))
     = Some [''Root Cause Identified'', ''Incident Started'']"
  by (simp add: getTimeline_def diagnosed_def updateIncident_def after_valve_incidents map_get_def
      createTimelineEvent_def truthy_str_def Let_def)

text \<open>
  Claim C8. An incident update with an unknown id, and a mission start, pause, resume,
  stop, speed change or branch with an unknown id, return \<open>not_found\<close>, publish nothing and
  leave the whole state (the incident map and alert queue; the mission objects, the
  mission map and the active mission) exactly as it was.
\<close>

theorem unknown_id_no_mutation:
  "(map_get ident (incidents ist) = None \<longrightarrow>
      updateIncident now ident body ist = (Inl not_found, ist, []))
   \<and> (map_get ident (missions mst) = None \<longrightarrow>
        startMission now ident mst = (Inl not_found, mst, [])
      \<and> pauseMission ident mst = (Inl not_found, mst, [])
      \<and> resumeMission ident mst = (Inl not_found, mst, [])
      \<and> stopMission now ident mst = (Inl not_found, mst, [])
      \<and> setSpeed ident speed mst = (Inl not_found, mst, [])
      \<and> branchMission now uuid ident title mst = (Inl not_found, mst, []))"
  by (simp add: updateIncident_def startMission_def pauseMission_def resumeMission_def
      stopMission_def setSpeed_def branchMission_def)

text \<open>
  The theorem at work: the id \<open>9-z\<close> is unknown to the empty incident map and to the state
  with one mission, whose own id is accepted.
\<close>

theorem unknown_id_no_mutation_witness:
  "map_get ''9-z'' (incidents incidents_init) = None
   \<and> updateIncident 5000 ''9-z''
        \<lparr>b_status = None, b_rootCause = None, b_resolution = Some ''Valve replaced''\<rparr> incidents_init
       = (Inl not_found, incidents_init, [])
   \<and> map_get ''9-z'' (missions one_mission) = None
   \<and> startMission 5000 ''9-z'' one_mission = (Inl not_found, one_mission, [])
   \<and> stopMission 5000 ''9-z'' one_mission = (Inl not_found, one_mission, [])
   \<and> setSpeed ''9-z'' 4 one_mission = (Inl not_found, one_mission, [])
   \<and> branchMission 5000 ''5000-r'' ''9-z'' None one_mission = (Inl not_found, one_mission, [])
   \<and> fst (startMission 5000 ''0-q'' one_mission) = Inr Ok"
proof -
  have i: "map_get ''9-z'' (incidents incidents_init) = None"
    by (simp add: incidents_init_def map_get_def)
  have m: "map_get ''9-z'' (missions one_mission) = None"
    by (simp add: one_mission_eq map_get_def)
  have known: "fst (startMission 5000 ''0-q'' one_mission) = Inr Ok"
    by (simp add: one_mission_eq startMission_def map_get_def Let_def)
  from unknown_id_no_mutation[of "''9-z''" incidents_init 5000
      "\<lparr>b_status = None, b_rootCause = None, b_resolution = Some ''Valve replaced''\<rparr>"
      one_mission 4 "''5000-r''" None] i m known
  show ?thesis by simp
qed

text \<open>
  Claim C4, as the spec states it, has the bus deliver an event to the remaining
  listeners when one of them throws. With three listeners of which the second throws,
  \<open>emit\<close> calls two listeners and returns the exception; the third never sees the event.
\<close>

theorem throwing_listener_blocks_later_counterexample:
  "emit [logger ''sse-1'', faulty, logger ''sse-2''] ''alert.created'' []
     = ([''sse-1 got alert.created''], 2, Some ''TypeError'')"
  by (simp add: logger_def faulty_def)

text \<open>
  Claim C4, amended. A listener that throws ends the dispatch: the listeners registered
  before it have received the event, in registration order, the listeners registered
  after it are not called, and the exception reaches the publisher. When no listener
  throws, every listener receives the event, in registration order.
\<close>

theorem throwing_listener_ends_dispatch:
  "(emit pre ev s = (s1, length pre, None) \<and> l ev s1 = (s2, Some x) \<longrightarrow>
      emit (pre @ l # post) ev s = (s2, Suc (length pre), Some x))
   \<and> ((\<forall>l\<in>set ls. \<forall>s. snd (l ev s) = None) \<longrightarrow>
      emit ls ev s = (foldl (\<lambda>s l. fst (l ev s)) s ls, length ls, None))"
  using emit_abort[of pre ev s s1 l s2 x post] emit_all[of ls ev s] by blast

text \<open>The theorem at work on the listeners of the counterexample.\<close>

theorem throwing_listener_ends_dispatch_witness:
  "emit [logger ''sse-1''] ''alert.created'' [] = ([''sse-1 got alert.created''], length [logger ''sse-1''], None)
   \<and> faulty ''alert.created'' [''sse-1 got alert.created''] = ([''sse-1 got alert.created''], Some ''TypeError'')
   \<and> emit ([logger ''sse-1''] @ faulty # [logger ''sse-2'']) ''alert.created'' []
       = ([''sse-1 got alert.created''], 2, Some ''TypeError'')
   \<and> emit [logger ''sse-1'', logger ''sse-2''] ''alert.created'' []
       = ([''sse-1 got alert.created'', ''sse-2 got alert.created''], 2, None)"
proof -
  have a: "emit [logger ''sse-1''] ''alert.created'' [] = ([''sse-1 got alert.created''], length [logger ''sse-1''], None)"
    by (simp add: logger_def)
  have b: "faulty ''alert.created'' [''sse-1 got alert.created''] = ([''sse-1 got alert.created''], Some ''TypeError'')"
    by (simp add: faulty_def)
  have c: "\<forall>l\<in>set [logger ''sse-1'', logger ''sse-2'']. \<forall>s. snd (l ''alert.created'' s) = None"
    by (simp add: logger_def)
  from throwing_listener_ends_dispatch[of "[logger ''sse-1'']" "''alert.created''" "[]"
      "[''sse-1 got alert.created'']" faulty "[''sse-1 got alert.created'']" "''TypeError''"
      "[logger ''sse-2'']" "[logger ''sse-1'', logger ''sse-2'']"] a b c
  have "emit ([logger ''sse-1''] @ faulty # [logger ''sse-2'']) ''alert.created'' []
       = ([''sse-1 got alert.created''], Suc (length [logger ''sse-1'']), Some ''TypeError'')"
    and "emit [logger ''sse-1'', logger ''sse-2''] ''alert.created'' []
       = (foldl (\<lambda>s l. fst (l ''alert.created'' s)) [] [logger ''sse-1'', logger ''sse-2''],
          length [logger ''sse-1'', logger ''sse-2''], None)"
    by blast+
  then show ?thesis using a b by (simp add: logger_def)
qed

end
